theory Spec2Isabelle
  imports Main "HOL-Library.Sublist" "HOL-Library.AList"
begin

section \<open>JavaScript strings\<close>

text \<open>
  Strings are lists of characters. The model covers strings whose code units fit the
  8-bit character type; \<open>length\<close> is the number of code units, as \<open>String.length\<close> is.
\<close>

definition startsWith :: "string \<Rightarrow> string \<Rightarrow> bool" where
  "startsWith s p = prefix p s"

definition endsWith :: "string \<Rightarrow> string \<Rightarrow> bool" where
  "endsWith s p = suffix p s"

definition js_includes :: "string \<Rightarrow> string \<Rightarrow> bool" where
  "js_includes s p = sublist p s"

text \<open>Truthiness of a value that is a string, \<open>undefined\<close> or \<open>null\<close> (\<open>None\<close>).\<close>

fun truthy :: "string option \<Rightarrow> bool" where
  "truthy None = False"
| "truthy (Some s) = (s \<noteq> [])"

subsection \<open>The regular expressions of the source\<close>

text \<open>
  The fragment of JavaScript regular expressions that the downloader uses: a sequence of
  single-character atoms, each optionally under a greedy star, with the anchors \<open>^\<close> and
  \<open>$\<close> (no \<open>m\<close> flag, so they mean start and end of input) and the \<open>g\<close> flag.
\<close>

datatype atom = Lit char | OneOf "char list" | NoneOf "char list"

datatype item = One atom | Star atom

record regex =
  items :: "item list"
  caret :: bool
  dollar :: bool
  global :: bool

fun accepts :: "atom \<Rightarrow> char \<Rightarrow> bool" where
  "accepts (Lit a) c = (c = a)"
| "accepts (OneOf cs) c = (c \<in> set cs)"
| "accepts (NoneOf cs) c = (c \<notin> set cs)"

text \<open>
  \<open>matchHere its d s\<close> is the length of the match of \<open>its\<close> at the start of \<open>s\<close>, found
  by backtracking: a star first takes one more character and gives it back only when the
  rest of the pattern fails. \<open>d\<close> says that the pattern ends with \<open>$\<close>.
\<close>

fun matchHere :: "item list \<Rightarrow> bool \<Rightarrow> string \<Rightarrow> nat option" where
  "matchHere [] d s = (if d \<and> s \<noteq> [] then None else Some 0)"
| "matchHere (One a # r) d [] = None"
| "matchHere (One a # r) d (c # s) =
     (if accepts a c then map_option Suc (matchHere r d s) else None)"
| "matchHere (Star a # r) d [] = matchHere r d []"
| "matchHere (Star a # r) d (c # s) =
     (if accepts a c
      then (case matchHere (Star a # r) d s of
              Some n \<Rightarrow> Some (Suc n)
            | None \<Rightarrow> matchHere r d (c # s))
      else matchHere r d (c # s))"

text \<open>The leftmost position at which the pattern matches, with the length of the match.\<close>

fun findMatch :: "item list \<Rightarrow> bool \<Rightarrow> string \<Rightarrow> (nat \<times> nat) option" where
  "findMatch its d [] = map_option (Pair 0) (matchHere its d [])"
| "findMatch its d (c # s) =
     (case matchHere its d (c # s) of
        Some n \<Rightarrow> Some (0, n)
      | None \<Rightarrow> map_option (\<lambda>(i, n). (Suc i, n)) (findMatch its d s))"

text \<open>Replacement of every match (flag \<open>g\<close>); after an empty match the scan advances by one.\<close>

fun replaceAll :: "item list \<Rightarrow> bool \<Rightarrow> string \<Rightarrow> string \<Rightarrow> string" where
  "replaceAll its d rep [] = (case matchHere its d [] of Some n \<Rightarrow> rep | None \<Rightarrow> [])"
| "replaceAll its d rep (c # s) =
     (case matchHere its d (c # s) of
        None \<Rightarrow> c # replaceAll its d rep s
      | Some 0 \<Rightarrow> rep @ c # replaceAll its d rep s
      | Some (Suc m) \<Rightarrow> rep @ replaceAll its d rep (drop m s))"

text \<open>\<open>String.prototype.replace(re, rep)\<close> for a replacement string without \<open>$\<close> patterns.\<close>

definition js_replace :: "regex \<Rightarrow> string \<Rightarrow> string \<Rightarrow> string" where
  "js_replace re rep s =
     (if global re \<and> \<not> caret re then replaceAll (items re) (dollar re) rep s
      else (case (if caret re then map_option (Pair 0) (matchHere (items re) (dollar re) s)
                  else findMatch (items re) (dollar re) s) of
              None \<Rightarrow> s
            | Some (i, n) \<Rightarrow> take i s @ rep @ drop (i + n) s))"

definition lits :: "string \<Rightarrow> item list" where
  "lits p = map (\<lambda>c. One (Lit c)) p"

text \<open>The dot matches every character except the line terminators LF and CR.\<close>

definition lineTerminators :: "char list" where
  "lineTerminators = [CHR 0x0A, CHR 0x0D]"

definition dot :: atom where
  "dot = NoneOf lineTerminators"

section \<open>Path cleaning and the noise filter (\<open>cleanSourcePath\<close>, \<open>shouldExtractSource\<close>)\<close>

text \<open>\<^verbatim>\<open>/^\//\<close>\<close>
definition re_leading_slash :: regex where
  "re_leading_slash = \<lparr>items = lits ''/'', caret = True, dollar = False, global = False\<rparr>"

text \<open>\<^verbatim>\<open>/^webpack:\/\/[^/]*\//\<close>\<close>
definition re_webpack_host :: regex where
  "re_webpack_host =
     \<lparr>items = lits ''webpack://'' @ [Star (NoneOf ''/''), One (Lit CHR ''/'')],
      caret = True, dollar = False, global = False\<rparr>"

text \<open>\<^verbatim>\<open>/^webpack:\/\//\<close>\<close>
definition re_webpack_bare :: regex where
  "re_webpack_bare = \<lparr>items = lits ''webpack://'', caret = True, dollar = False, global = False\<rparr>"

text \<open>\<^verbatim>\<open>/^\.\//\<close>\<close>
definition re_dot_slash :: regex where
  "re_dot_slash = \<lparr>items = lits ''./'', caret = True, dollar = False, global = False\<rparr>"

text \<open>\<^verbatim>\<open>/\?.*$/\<close>\<close>
definition re_query :: regex where
  "re_query = \<lparr>items = [One (Lit CHR ''?''), Star dot], caret = False, dollar = True, global = False\<rparr>"

definition unsafeChars :: "char list" where
  \<open>unsafeChars = ''<>:"|?*''\<close>

text \<open>\<^verbatim>\<open>/[<>:"|?*]/g\<close>\<close>
definition re_unsafe :: regex where
  "re_unsafe = \<lparr>items = [One (OneOf unsafeChars)], caret = False, dollar = False, global = True\<rparr>"

definition cleanSourcePath :: "string \<Rightarrow> string" where
  "cleanSourcePath sourcePath =
     js_replace re_unsafe ''_''
       (js_replace re_query ''''
          (js_replace re_dot_slash ''''
             (js_replace re_webpack_bare ''''
                (js_replace re_webpack_host ''''
                   (js_replace re_leading_slash '''' sourcePath)))))"

definition skipPatterns :: "string list" where
  "skipPatterns =
     [''webpack/'', ''node_modules/'', ''webpack:///'', ''(webpack)'',
      ''webpack/bootstrap'', ''webpack/runtime'']"

text \<open>
  \<open>shouldExtractSource(sourcePath, sourceContent)\<close>; the arguments are entries of the
  parsed arrays: a string, or \<open>None\<close> for \<open>null\<close> and for an index past the end.
\<close>

fun shouldExtractSource :: "string option \<Rightarrow> string option \<Rightarrow> bool" where
  "shouldExtractSource (Some sourcePath) (Some sourceContent) =
     (if sourceContent = [] \<or> sourcePath = [] then False
      else \<not> list_ex (\<lambda>pattern. js_includes sourcePath pattern) skipPatterns)"
| "shouldExtractSource _ _ = False"

subsection \<open>The cleaning steps as the specification words them\<close>

definition stripLeadingSlash :: "string \<Rightarrow> string" where
  "stripLeadingSlash s = (if prefix ''/'' s then drop (length ''/'') s else s)"

definition stripWebpackHost :: "string \<Rightarrow> string" where
  "stripWebpackHost s =
     (if prefix ''webpack://'' s \<and> CHR ''/'' \<in> set (drop (length ''webpack://'') s)
      then drop 1 (dropWhile (\<lambda>c. c \<noteq> CHR ''/'') (drop (length ''webpack://'') s))
      else s)"

definition stripWebpackBare :: "string \<Rightarrow> string" where
  "stripWebpackBare s = (if prefix ''webpack://'' s then drop (length ''webpack://'') s else s)"

definition stripDotSlash :: "string \<Rightarrow> string" where
  "stripDotSlash s = (if prefix ''./'' s then drop (length ''./'') s else s)"

text \<open>Everything from the first question mark onward is removed.\<close>

definition stripQuery :: "string \<Rightarrow> string" where
  "stripQuery s = takeWhile (\<lambda>c. c \<noteq> CHR ''?'') s"

text \<open>
  Everything from the first question mark that no line terminator follows is removed;
  a string without such a question mark is unchanged.
\<close>

fun stripQueryLine :: "string \<Rightarrow> string" where
  "stripQueryLine [] = []"
| "stripQueryLine (c # s) =
     (if c = CHR ''?'' \<and> \<not> list_ex (\<lambda>x. x \<in> set lineTerminators) s then []
      else c # stripQueryLine s)"

definition replaceUnsafe :: "string \<Rightarrow> string" where
  "replaceUnsafe s = map (\<lambda>c. if c \<in> set unsafeChars then CHR ''_'' else c) s"

definition cleanPath_spec :: "string \<Rightarrow> string" where
  "cleanPath_spec s =
     replaceUnsafe (stripQuery (stripDotSlash (stripWebpackBare (stripWebpackHost
       (stripLeadingSlash s)))))"

definition cleanPath_steps :: "string \<Rightarrow> string" where
  "cleanPath_steps s =
     replaceUnsafe (stripQueryLine (stripDotSlash (stripWebpackBare (stripWebpackHost
       (stripLeadingSlash s)))))"

section \<open>The platform\<close>

text \<open>
  The downloader runs in a browser. What the browser provides (\<open>fetch\<close>, \<open>URL\<close>,
  \<open>JSON.parse\<close>, \<open>DOMParser\<close>, \<open>TextEncoder\<close>, the clock, the user's clicks) is a
  parameter of the model. Log lines and progress display are not modelled.
\<close>

type_synonym bytes = "nat list"

text \<open>
  A native \<open>Response\<close>, as far as the downloader reads it: \<open>text_body\<close> and
  \<open>arrayBuffer\<close> are \<open>None\<close> when the method rejects; \<open>json_contents\<close> is the
  \<open>contents\<close> field of the value of \<open>json()\<close>: \<open>None\<close> when \<open>json()\<close> rejects,
  \<open>Some None\<close> when the parsed object has no string under \<open>contents\<close>.
\<close>

record response =
  status :: nat
  statusText :: string
  headers_content_type :: "string option"
  text_body :: "string option"
  arrayBuffer :: "bytes option"
  json_contents :: "string option option"

definition ok :: "response \<Rightarrow> bool" where
  "ok r = (200 \<le> status r \<and> status r \<le> 299)"

text \<open>The outcome of awaiting \<open>fetch\<close>: the promise rejects (network level) or resolves.\<close>

datatype fetched = Rejected string | Resolved response

text \<open>
  A request is the direct one for a URL, or the one to the relay
  \<^verbatim>\<open>https://api.allorigins.win/get?url=\<close> with that URL as the query parameter.
\<close>

datatype request = Direct string | ViaProxy string

record urlObj =
  href :: string
  pathname :: string
  search :: string

text \<open>
  \<open>sources\<close> and \<open>sourcesContent\<close> of a parsed source map: \<open>None\<close> when the field is absent
  or \<open>null\<close>, else the array, whose entries are strings or \<open>null\<close>.
\<close>

record sourceMap =
  sources :: "string option list option"
  sourcesContent :: "string option list option"
  sourceRoot :: "string option"

text \<open>An element of the parsed document: its local name and its attributes.\<close>

record element =
  tagName :: string
  attributes :: "(string \<times> string) list"

text \<open>
  \<open>fetch p n rq\<close> is the outcome of the \<open>n\<close>-th request of the session, and
  \<open>stopClicked p n\<close> says that the user clicks the stop button while it is awaited.
  \<open>new_URL p u b\<close> is \<open>new URL(u, b)\<close>, \<open>None\<close> when it throws. \<open>JSON_parse\<close> is
  \<open>None\<close> when parsing throws or yields no object. \<open>parseFromString\<close> gives the elements
  of the parsed document in document order.
\<close>

record platform =
  fetch :: "nat \<Rightarrow> request \<Rightarrow> fetched"
  stopClicked :: "nat \<Rightarrow> bool"
  new_URL :: "string \<Rightarrow> string option \<Rightarrow> urlObj option"
  JSON_parse :: "string \<Rightarrow> sourceMap option"
  parseFromString :: "string \<Rightarrow> element list"
  TextEncoder_encode :: "string \<Rightarrow> bytes"
  Date_now :: string

section \<open>The downloader state\<close>

datatype content = Text string | Buffer bytes

text \<open>
  The field \<open>type\<close> of a record: one of the type names, or, where \<open>determineFileType\<close>
  reads its table at a key that the table inherits from \<open>Object.prototype\<close>, that
  inherited member (a function or an object, not a string).
\<close>

datatype typeValue = TypeName string | PrototypeMember string

record fileData =
  content :: content
  fsize :: nat
  ftype :: typeValue
  url :: "string option"
  contentType :: "string option"
  originalPath :: "string option"

record stats =
  totalFiles :: nat
  sourceFiles :: nat
  jsFiles :: nat
  cssFiles :: nat
  imageFiles :: nat
  totalSize :: nat

text \<open>
  \<open>downloadedFiles\<close> is a \<open>Map\<close>, kept in insertion order; \<open>downloadedUrls\<close> is a \<open>Set\<close>.
  \<open>requests\<close> is not a field of the class: it records the requests issued so far.
\<close>

record downloader =
  downloadedFiles :: "(string \<times> fileData) list"
  downloadedUrls :: "string list"
  isDownloading :: bool
  stats :: stats
  requests :: "request list"

definition Map_has :: "(string \<times> 'v) list \<Rightarrow> string \<Rightarrow> bool" where
  "Map_has m k = (map_of m k \<noteq> None)"

definition Map_get :: "(string \<times> 'v) list \<Rightarrow> string \<Rightarrow> 'v option" where
  "Map_get m k = map_of m k"

definition Map_set :: "(string \<times> 'v) list \<Rightarrow> string \<Rightarrow> 'v \<Rightarrow> (string \<times> 'v) list" where
  "Map_set m k v = AList.update k v m"

definition Set_add :: "string list \<Rightarrow> string \<Rightarrow> string list" where
  "Set_add xs x = (if x \<in> set xs then xs else xs @ [x])"

datatype error =
  NetworkFailure string
| ProxyReturned nat
| JsonRejected
| BodyUnreadable
| InvalidURL
| BothFailed error
| FailedToDownload string error

definition stopDownload :: "downloader \<Rightarrow> downloader" where
  "stopDownload st = st\<lparr>isDownloading := False\<rparr>"

text \<open>
  Awaiting a request: it is recorded, the platform gives its outcome, and a click on the
  stop button that arrives meanwhile runs \<open>stopDownload\<close>.
\<close>

definition await_fetch :: "platform \<Rightarrow> downloader \<Rightarrow> request \<Rightarrow> fetched \<times> downloader" where
  "await_fetch p st rq =
     (let n = length (requests st);
          st' = st\<lparr>requests := requests st @ [rq]\<rparr>
      in (fetch p n rq, if stopClicked p n then stopDownload st' else st'))"

section \<open>Network and CORS handling (\<open>fetchWithCORS\<close>)\<close>

text \<open>
  What \<open>fetchWithCORS\<close> returns: the native response of the direct request, or the object
  literal built around the relay's \<open>data.contents\<close>.
\<close>

datatype responseObj = Native response | Fake "string option"

fun resp_ok :: "responseObj \<Rightarrow> bool" where
  "resp_ok (Native r) = ok r"
| "resp_ok (Fake c) = True"

fun resp_status :: "responseObj \<Rightarrow> nat" where
  "resp_status (Native r) = status r"
| "resp_status (Fake c) = 200"

fun headers_get_content_type :: "responseObj \<Rightarrow> string option" where
  "headers_get_content_type (Native r) = headers_content_type r"
| "headers_get_content_type (Fake c) = Some ''text/plain''"

fun resp_text :: "responseObj \<Rightarrow> string option" where
  "resp_text (Native r) = text_body r"
| "resp_text (Fake c) = c"

fun resp_arrayBuffer :: "platform \<Rightarrow> responseObj \<Rightarrow> bytes option" where
  "resp_arrayBuffer p (Native r) = arrayBuffer r"
| "resp_arrayBuffer p (Fake c) = Some (TextEncoder_encode p (case c of None \<Rightarrow> [] | Some s \<Rightarrow> s))"

text \<open>The second half of \<open>fetchWithCORS\<close>: the request to the relay.\<close>

definition fetchViaProxy :: "platform \<Rightarrow> downloader \<Rightarrow> string \<Rightarrow> (error + responseObj) \<times> downloader" where
  "fetchViaProxy p st u =
     (case await_fetch p st (ViaProxy u) of
        (Rejected m, st') \<Rightarrow> (Inl (BothFailed (NetworkFailure m)), st')
      | (Resolved response, st') \<Rightarrow>
          if \<not> ok response then (Inl (BothFailed (ProxyReturned (status response))), st')
          else (case json_contents response of
                  None \<Rightarrow> (Inl (BothFailed JsonRejected), st')
                | Some c \<Rightarrow> (Inr (Fake c), st')))"

definition fetchWithCORS :: "platform \<Rightarrow> downloader \<Rightarrow> string \<Rightarrow> (error + responseObj) \<times> downloader" where
  "fetchWithCORS p st u =
     (case await_fetch p st (Direct u) of
        (Resolved response, st') \<Rightarrow>
          if ok response then (Inr (Native response), st') else fetchViaProxy p st' u
      | (Rejected m, st') \<Rightarrow> fetchViaProxy p st' u)"

section \<open>File management (\<open>saveFile\<close>)\<close>

definition saveFile :: "downloader \<Rightarrow> string \<Rightarrow> fileData \<Rightarrow> downloader" where
  "saveFile st filename fileData =
     st\<lparr>downloadedFiles := Map_set (downloadedFiles st) filename fileData,
        stats :=
          (let s = (stats st)\<lparr>totalFiles := Suc (totalFiles (stats st)),
                               totalSize := totalSize (stats st) + fsize fileData\<rparr>
           in if startsWith filename ''src/'' then s\<lparr>sourceFiles := Suc (sourceFiles s)\<rparr>
              else if endsWith filename ''.js'' then s\<lparr>jsFiles := Suc (jsFiles s)\<rparr>
              else if endsWith filename ''.css'' then s\<lparr>cssFiles := Suc (cssFiles s)\<rparr>
              else if ftype fileData = TypeName ''image'' then s\<lparr>imageFiles := Suc (imageFiles s)\<rparr>
              else s)\<rparr>"

section \<open>Utility methods\<close>

definition getContentType :: "responseObj \<Rightarrow> string" where
  "getContentType response =
     (case headers_get_content_type response of
        Some v \<Rightarrow> if v = [] then ''application/octet-stream'' else v
      | None \<Rightarrow> ''application/octet-stream'')"

text \<open>\<open>None\<close> when reading the body throws.\<close>

definition getResponseContent :: "platform \<Rightarrow> responseObj \<Rightarrow> string \<Rightarrow> content option" where
  "getResponseContent p response ctype =
     (if js_includes ctype ''text'' \<or> js_includes ctype ''javascript'' \<or>
         js_includes ctype ''json'' \<or> js_includes ctype ''css''
      then map_option Text (resp_text response)
      else (case resp_arrayBuffer p response of
              Some b \<Rightarrow> Some (Buffer b)
            | None \<Rightarrow> map_option Text (resp_text response)))"

fun getContentSize :: "content \<Rightarrow> nat" where
  "getContentSize (Text s) = length s"
| "getContentSize (Buffer b) = length b"

text \<open>\<open>s.split(sep)\<close> for a separator of one character; the result is never empty.\<close>

fun js_split :: "char \<Rightarrow> string \<Rightarrow> string list" where
  "js_split sep [] = [[]]"
| "js_split sep (c # s) =
     (if c = sep then [] # js_split sep s
      else (case js_split sep s of x # xs \<Rightarrow> (c # x) # xs | [] \<Rightarrow> [[c]]))"

definition toLowerCase :: "string \<Rightarrow> string" where
  "toLowerCase s =
     map (\<lambda>c. let n = (of_char c :: nat) in if 65 \<le> n \<and> n \<le> 90 then char_of (n + 32) else c) s"

definition getDefaultFilename :: "string \<Rightarrow> string" where
  "getDefaultFilename ctype =
     (if js_includes ctype ''html'' then ''index.html''
      else if js_includes ctype ''css'' then ''index.css''
      else if js_includes ctype ''javascript'' then ''index.js''
      else ''index.bin'')"

text \<open>The table \<open>extensions\<close>, each MIME type already cut down to the part after the slash.\<close>

definition extensions :: "(string \<times> string) list" where
  "extensions =
     [(''html'', ''.html''), (''css'', ''.css''), (''javascript'', ''.js''),
      (''javascript'', ''.js''), (''json'', ''.json''), (''png'', ''.png''),
      (''jpeg'', ''.jpg''), (''gif'', ''.gif''), (''svg+xml'', ''.svg'')]"

definition getExtensionFromContentType :: "string \<Rightarrow> string" where
  "getExtensionFromContentType ctype =
     (case find (\<lambda>(sub, ext). js_includes ctype sub) extensions of
        Some (sub, ext) \<Rightarrow> ext
      | None \<Rightarrow> ''.bin'')"

text \<open>\<^verbatim>\<open>/[=&]/g\<close>\<close>
definition re_query_seps :: regex where
  "re_query_seps = \<lparr>items = [One (OneOf ''=&'')], caret = False, dollar = False, global = True\<rparr>"

definition generateFilename :: "platform \<Rightarrow> string \<Rightarrow> string \<Rightarrow> string" where
  "generateFilename p u ctype =
     (case new_URL p u None of
        None \<Rightarrow> ''resource_'' @ Date_now p @ ''.bin''
      | Some urlObj \<Rightarrow>
          if pathname urlObj = [] \<or> pathname urlObj = ''/'' \<or> endsWith (pathname urlObj) ''/''
          then getDefaultFilename ctype
          else
            (let filename0 = last (js_split CHR ''/'' (pathname urlObj));
                 hasExtension = js_includes filename0 ''.'';
                 filename1 =
                   (if search urlObj \<noteq> [] \<and> \<not> hasExtension
                    then filename0 @ ''_'' @
                         take 20 (js_replace re_query_seps ''_'' (drop 1 (search urlObj)))
                    else filename0);
                 filename2 = hd (js_split CHR ''?'' filename1);
                 filename3 =
                   (if \<not> hasExtension then filename2 @ getExtensionFromContentType ctype
                    else filename2);
                 cleaned = js_replace re_unsafe ''_'' filename3
             in if cleaned = [] then ''resource_'' @ Date_now p @ ''.bin'' else cleaned))"

definition typeMap :: "(string \<times> string) list" where
  "typeMap =
     [(''js'', ''script''), (''jsx'', ''script''), (''ts'', ''script''), (''tsx'', ''script''),
      (''css'', ''stylesheet''), (''scss'', ''stylesheet''),
      (''png'', ''image''), (''jpg'', ''image''), (''jpeg'', ''image''), (''gif'', ''image''),
      (''svg'', ''image''), (''html'', ''html''), (''htm'', ''html''), (''map'', ''sourcemap'')]"

text \<open>
  \<^verbatim>\<open>typeMap[ext] || 'other'\<close>: the table is an object literal, so a key that is not its
  own is looked up in \<open>Object.prototype\<close>. The extension is in lower case; the members
  of \<open>Object.prototype\<close> with a name in lower case are \<open>constructor\<close> and \<open>__proto__\<close>,
  and both are truthy.
\<close>

definition inheritedKeys :: "string list" where
  "inheritedKeys = [''constructor'', ''__proto__'']"

definition determineFileType :: "string \<Rightarrow> string \<Rightarrow> typeValue" where
  "determineFileType filename ctype =
     (if js_includes ctype ''javascript'' then TypeName ''script''
      else if js_includes ctype ''css'' then TypeName ''stylesheet''
      else if js_includes ctype ''image'' then TypeName ''image''
      else if js_includes ctype ''html'' then TypeName ''html''
      else (let ext = toLowerCase (last (js_split CHR ''.'' filename))
            in case map_of typeMap ext of
                 Some t \<Rightarrow> TypeName t
               | None \<Rightarrow> if ext \<in> set inheritedKeys then PrototypeMember ext
                          else TypeName ''other''))"

section \<open>Phase 3: static resource download\<close>

text \<open>The result is the error thrown, if any, and the state left behind.\<close>

definition downloadSingleResource :: "platform \<Rightarrow> downloader \<Rightarrow> string \<Rightarrow> error option \<times> downloader" where
  "downloadSingleResource p st u =
     (if u \<in> set (downloadedUrls st) then (None, st)
      else (case fetchWithCORS p st u of
              (Inl e, st1) \<Rightarrow> (Some (FailedToDownload u e), st1)
            | (Inr response, st1) \<Rightarrow>
                (let ctype = getContentType response in
                 case getResponseContent p response ctype of
                   None \<Rightarrow> (Some (FailedToDownload u BodyUnreadable), st1)
                 | Some body \<Rightarrow>
                     (let filename = generateFilename p u ctype;
                          fileType = determineFileType filename ctype;
                          st2 = saveFile st1 filename
                                  \<lparr>content = body, fsize = getContentSize body,
                                   ftype = fileType, url = Some u,
                                   contentType = Some ctype, originalPath = None\<rparr>
                      in (None, st2\<lparr>downloadedUrls := Set_add (downloadedUrls st2) u\<rparr>)))))"

text \<open>The loop of \<open>downloadStaticResources\<close>: the flag is read before each resource.\<close>

fun downloadStaticResources :: "platform \<Rightarrow> downloader \<Rightarrow> string list \<Rightarrow> downloader" where
  "downloadStaticResources p st [] = st"
| "downloadStaticResources p st (resourceUrl # rest) =
     (if \<not> isDownloading st then st
      else downloadStaticResources p (snd (downloadSingleResource p st resourceUrl)) rest)"

section \<open>Phase 2: static resource extraction\<close>

definition getAttribute :: "element \<Rightarrow> string \<Rightarrow> string option" where
  "getAttribute el name = map_of (attributes el) name"

text \<open>
  The four selectors. In an HTML document the value of \<open>rel\<close> is compared without regard
  to ASCII case.
\<close>

definition rel_is_stylesheet :: "element \<Rightarrow> bool" where
  "rel_is_stylesheet el =
     (case getAttribute el ''rel'' of Some v \<Rightarrow> toLowerCase v = ''stylesheet'' | None \<Rightarrow> False)"

text \<open>\<^verbatim>\<open>script[src]\<close>\<close>
definition sel_script_src :: "element \<Rightarrow> bool" where
  "sel_script_src el = (tagName el = ''script'' \<and> getAttribute el ''src'' \<noteq> None)"

text \<open>\<^verbatim>\<open>link[rel="stylesheet"]\<close>\<close>
definition sel_link_stylesheet :: "element \<Rightarrow> bool" where
  "sel_link_stylesheet el = (tagName el = ''link'' \<and> rel_is_stylesheet el)"

text \<open>\<^verbatim>\<open>img[src]\<close>\<close>
definition sel_img_src :: "element \<Rightarrow> bool" where
  "sel_img_src el = (tagName el = ''img'' \<and> getAttribute el ''src'' \<noteq> None)"

text \<open>\<^verbatim>\<open>link[href]:not([rel="stylesheet"])\<close>\<close>
definition sel_link_other :: "element \<Rightarrow> bool" where
  "sel_link_other el =
     (tagName el = ''link'' \<and> getAttribute el ''href'' \<noteq> None \<and> \<not> rel_is_stylesheet el)"

definition querySelectorAll :: "element list \<Rightarrow> (element \<Rightarrow> bool) \<Rightarrow> element list" where
  "querySelectorAll doc sel = filter sel doc"

text \<open>\<open>addResourceUrl(url, base, resourceUrls, type)\<close>; the result is the set afterwards.\<close>

definition addResourceUrl :: "platform \<Rightarrow> string option \<Rightarrow> urlObj \<Rightarrow> string list \<Rightarrow> string list" where
  "addResourceUrl p attr base resourceUrls =
     (case attr of
        None \<Rightarrow> resourceUrls
      | Some u \<Rightarrow>
          if u = [] \<or> startsWith u ''data:'' \<or> startsWith u ''#'' \<or>
             startsWith u ''mailto:'' \<or> startsWith u ''tel:''
          then resourceUrls
          else (case new_URL p u (Some (href base)) of
                  None \<Rightarrow> resourceUrls
                | Some full \<Rightarrow>
                    if startsWith (href full) ''http'' then Set_add resourceUrls (href full)
                    else resourceUrls))"

definition extractScripts :: "platform \<Rightarrow> element list \<Rightarrow> urlObj \<Rightarrow> string list \<Rightarrow> string list" where
  "extractScripts p doc base resourceUrls =
     foldl (\<lambda>s el. addResourceUrl p (getAttribute el ''src'') base s) resourceUrls
       (querySelectorAll doc sel_script_src)"

definition extractStylesheets :: "platform \<Rightarrow> element list \<Rightarrow> urlObj \<Rightarrow> string list \<Rightarrow> string list" where
  "extractStylesheets p doc base resourceUrls =
     foldl (\<lambda>s el. addResourceUrl p (getAttribute el ''href'') base s) resourceUrls
       (querySelectorAll doc sel_link_stylesheet)"

definition extractImages :: "platform \<Rightarrow> element list \<Rightarrow> urlObj \<Rightarrow> string list \<Rightarrow> string list" where
  "extractImages p doc base resourceUrls =
     foldl (\<lambda>s el. addResourceUrl p (getAttribute el ''src'') base s) resourceUrls
       (querySelectorAll doc sel_img_src)"

definition extractOtherResources :: "platform \<Rightarrow> element list \<Rightarrow> urlObj \<Rightarrow> string list \<Rightarrow> string list" where
  "extractOtherResources p doc base resourceUrls =
     foldl (\<lambda>s el. addResourceUrl p (getAttribute el ''href'') base s) resourceUrls
       (querySelectorAll doc sel_link_other)"

text \<open>\<open>new URL(baseUrl)\<close> stands before the \<open>try\<close>: when it throws, the call fails.\<close>

definition extractStaticResources :: "platform \<Rightarrow> string \<Rightarrow> string \<Rightarrow> error + string list" where
  "extractStaticResources p html baseUrl =
     (case new_URL p baseUrl None of
        None \<Rightarrow> Inl InvalidURL
      | Some base \<Rightarrow>
          (let doc = parseFromString p html
           in Inr (extractOtherResources p doc base
                     (extractImages p doc base
                        (extractStylesheets p doc base
                           (extractScripts p doc base []))))))"

section \<open>Phase 4: source files from a source map (\<open>extractSourceFilesFromMap\<close>)\<close>

text \<open>Reading an array at an index: \<open>undefined\<close> past the end.\<close>

definition js_nth :: "'a option list \<Rightarrow> nat \<Rightarrow> 'a option" where
  "js_nth xs i = (if i < length xs then xs ! i else None)"

definition sourceRecord :: "string \<Rightarrow> string \<Rightarrow> fileData" where
  "sourceRecord sourcePath sourceContent =
     \<lparr>content = Text sourceContent, fsize = length sourceContent, ftype = TypeName ''source'',
      url = None, contentType = None, originalPath = Some sourcePath\<rparr>"

text \<open>The body of the loop, for the entries read at one index.\<close>

definition extractEntry :: "string option \<Rightarrow> string option \<Rightarrow> nat \<times> downloader \<Rightarrow> nat \<times> downloader" where
  "extractEntry sourcePath sourceContent acc =
     (case (sourcePath, sourceContent, acc) of
        (Some sp, Some sc, (extractedCount, st)) \<Rightarrow>
          if shouldExtractSource (Some sp) (Some sc)
          then (Suc extractedCount, saveFile st (''src/'' @ cleanSourcePath sp) (sourceRecord sp sc))
          else acc
      | _ \<Rightarrow> acc)"

function extractLoop :: "string option list \<Rightarrow> string option list \<Rightarrow> nat \<Rightarrow> nat \<times> downloader \<Rightarrow> nat \<times> downloader" where
  "extractLoop srcs cnts i acc =
     (if i < length srcs
      then extractLoop srcs cnts (Suc i) (extractEntry (js_nth srcs i) (js_nth cnts i) acc)
      else acc)"
  by pat_completeness auto
termination
  by (relation "measure (\<lambda>(srcs, cnts, i, acc). length srcs - i)") auto

declare extractLoop.simps [simp del]

definition extractSourceFilesFromMap :: "platform \<Rightarrow> downloader \<Rightarrow> string \<Rightarrow> string \<Rightarrow> nat \<times> downloader" where
  "extractSourceFilesFromMap p st mapContent jsFilename =
     (case JSON_parse p mapContent of
        None \<Rightarrow> (0, st)
      | Some sm \<Rightarrow>
          (case (sources sm, sourcesContent sm) of
             (Some srcs, Some cnts) \<Rightarrow> extractLoop srcs cnts 0 (0, st)
           | _ \<Rightarrow> (0, st)))"

section \<open>The variant with collision-safe names (\<open>extractSourceFilesAdvanced\<close>)\<close>

text \<open>\<open>getFileExtension(filename)\<close>: the part after the last dot, with the dot.\<close>

definition getFileExtension :: "string \<Rightarrow> string" where
  "getFileExtension filename =
     (let parts = js_split CHR ''.'' filename
      in if length parts > 1 then ''.'' @ last parts else [])"

text \<open>\<open>s.replace(pat, rep)\<close> for a string \<open>pat\<close>: the first occurrence is replaced.\<close>

fun replaceStr :: "string \<Rightarrow> string \<Rightarrow> string \<Rightarrow> string" where
  "replaceStr pat rep [] = (if pat = [] then rep else [])"
| "replaceStr pat rep (c # s) =
     (if prefix pat (c # s) then rep @ drop (length pat) (c # s) else c # replaceStr pat rep s)"

text \<open>A counter as the template literal prints it.\<close>

definition digit :: "nat \<Rightarrow> char" where
  "digit n = char_of (48 + n)"

fun decimal :: "nat \<Rightarrow> string" where
  "decimal n = (if n < 10 then [digit n] else decimal (n div 10) @ [digit (n mod 10)])"

declare decimal.simps [simp del]

text \<open>The name tried for the value \<open>counter\<close>: \<^verbatim>\<open>`${base}_${counter}${ext}`\<close>.\<close>

definition suffixed :: "string \<Rightarrow> nat \<Rightarrow> string" where
  "suffixed filename counter =
     (let ext = getFileExtension filename; base = replaceStr ext [] filename
      in base @ ''_'' @ decimal counter @ ext)"

text \<open>
  The loop \<^verbatim>\<open>while (this.downloadedFiles.has(finalSourceFilename))\<close>, from the values of
  \<open>finalSourceFilename\<close> and \<open>counter\<close> at its head.
\<close>

function uniqueFilename :: "(string \<times> fileData) list \<Rightarrow> string \<Rightarrow> string \<Rightarrow> nat \<Rightarrow> string" where
  "uniqueFilename files filename finalFilename counter =
     (if Map_has files finalFilename
      then uniqueFilename files filename (suffixed filename counter) (Suc counter)
      else finalFilename)"
  by pat_completeness auto
termination
proof -
  have digit_inj: "a = b" if "digit a = digit b" "a < 10" "b < 10" for a b
  proof -
    from that(1) have "(of_char (digit a) :: nat) = of_char (digit b)" by simp
    then have "(48 + a) mod 256 = (48 + b) mod 256" by (simp add: digit_def)
    with that(2,3) show ?thesis by simp
  qed
  have decimal_ne: "decimal n \<noteq> []" for n
    by (subst decimal.simps) simp
  have decimal_inj: "a = b" if "decimal a = decimal b" for a b
    using that
  proof (induction a arbitrary: b rule: decimal.induct)
    case (1 n)
    show ?case
    proof (cases "n < 10")
      case True
      show ?thesis
      proof (cases "b < 10")
        case True
        with \<open>n < 10\<close> "1.prems" digit_inj show ?thesis
          by (simp add: decimal.simps [of n] decimal.simps [of b])
      next
        case False
        with \<open>n < 10\<close> "1.prems" decimal_ne [of "b div 10"] show ?thesis
          by (simp add: decimal.simps [of n] decimal.simps [of b])
      qed
    next
      case False
      show ?thesis
      proof (cases "b < 10")
        case True
        with \<open>\<not> n < 10\<close> "1.prems" decimal_ne [of "n div 10"] show ?thesis
          by (simp add: decimal.simps [of n] decimal.simps [of b])
      next
        case b: False
        from False b "1.prems"
        have eq: "decimal (n div 10) = decimal (b div 10)" "digit (n mod 10) = digit (b mod 10)"
          by (simp_all add: decimal.simps [of n] decimal.simps [of b])
        from "1.IH" [OF False eq(1)] have "n div 10 = b div 10" .
        moreover from digit_inj [OF eq(2)] have "n mod 10 = b mod 10" by simp
        ultimately show ?thesis by (metis div_mult_mod_eq)
      qed
    qed
  qed
  have suffixed_inj: "a = b" if "suffixed f a = suffixed f b" for f a b
    using that decimal_inj by (simp add: suffixed_def Let_def)
  define A where "A files f c = {n. c \<le> n \<and> suffixed f n \<in> fst ` set files}"
    for files :: "(string \<times> fileData) list" and f c
  have fin: "finite (A files f c)" for files f c
  proof -
    have "inj (suffixed f)" by (rule injI) (rule suffixed_inj)
    then have "finite (suffixed f -` (fst ` set files))" by (intro finite_vimageI) simp_all
    moreover have "A files f c \<subseteq> suffixed f -` (fst ` set files)" by (auto simp: A_def)
    ultimately show ?thesis by (rule rev_finite_subset)
  qed
  have step: "card (A files f (Suc c)) + (if suffixed f c \<in> fst ` set files then 1 else 0)
                = card (A files f c)" for files f c
  proof (cases "suffixed f c \<in> fst ` set files")
    case True
    then have "A files f c = insert c (A files f (Suc c))"
      by (auto simp: A_def Suc_le_eq le_less)
    moreover have "c \<notin> A files f (Suc c)" by (simp add: A_def)
    ultimately show ?thesis using True fin [of files f "Suc c"] by simp
  next
    case False
    then have "A files f c = A files f (Suc c)"
      by (auto simp: A_def Suc_le_eq le_less)
    with False show ?thesis by simp
  qed
  have has: "Map_has files k \<longleftrightarrow> k \<in> fst ` set files" for files :: "(string \<times> fileData) list" and k
    by (simp add: Map_has_def map_of_eq_None_iff)
  show ?thesis
  proof (relation "measure (\<lambda>(files, f, final, c).
           card (A files f c) + (if Map_has files final then 1 else 0))", goal_cases)
    case 1
    show ?case by simp
  next
    case (2 files filename finalFilename counter)
    with step [of files filename counter] show ?case by (simp add: has)
  qed
qed

declare uniqueFilename.simps [simp del]

text \<open>
  The \<open>fetchWithCORS\<close> of this variant: the relay request is not guarded, its status is
  not looked at.
\<close>

definition fetchViaProxy_adv :: "platform \<Rightarrow> downloader \<Rightarrow> string \<Rightarrow> (error + responseObj) \<times> downloader" where
  "fetchViaProxy_adv p st u =
     (case await_fetch p st (ViaProxy u) of
        (Rejected m, st') \<Rightarrow> (Inl (NetworkFailure m), st')
      | (Resolved r, st') \<Rightarrow>
          (case json_contents r of
             None \<Rightarrow> (Inl JsonRejected, st')
           | Some c \<Rightarrow> (Inr (Fake c), st')))"

definition fetchWithCORS_adv :: "platform \<Rightarrow> downloader \<Rightarrow> string \<Rightarrow> (error + responseObj) \<times> downloader" where
  "fetchWithCORS_adv p st u =
     (case await_fetch p st (Direct u) of
        (Resolved response, st') \<Rightarrow>
          if ok response then (Inr (Native response), st') else fetchViaProxy_adv p st' u
      | (Rejected m, st') \<Rightarrow> fetchViaProxy_adv p st' u)"

text \<open>The filter on the cleaned path, in the branch for embedded contents.\<close>

definition isInternalPath :: "string \<Rightarrow> bool" where
  "isInternalPath cleanPath =
     (js_includes cleanPath ''webpack/'' \<or>
      js_includes cleanPath ''node_modules/'' \<or>
      js_includes cleanPath ''webpack:///'' \<or>
      startsWith cleanPath ''(webpack)'' \<or>
      js_includes cleanPath ''webpack/bootstrap'' \<or>
      js_includes cleanPath ''webpack/runtime'' \<or>
      js_includes cleanPath ''webpack-dev-server'' \<or>
      js_includes cleanPath ''webpack-hot-middleware'' \<or>
      js_includes cleanPath ''__webpack'' \<or>
      startsWith cleanPath ''(webpack'' \<or>
      js_includes cleanPath ''webpack-internal://'')"

definition isInvalidPath :: "string \<Rightarrow> bool" where
  "isInvalidPath cleanPath =
     (cleanPath = [] \<or> cleanPath = ''.'' \<or> cleanPath = ''..'' \<or> length cleanPath < 2)"

definition embeddedEntry :: "string option \<Rightarrow> string option \<Rightarrow> nat \<times> downloader \<Rightarrow> nat \<times> downloader" where
  "embeddedEntry sourcePath sourceContent acc =
     (case (sourcePath, sourceContent, acc) of
        (Some sp, Some sc, (extractedCount, st)) \<Rightarrow>
          if sc = [] \<or> sp = [] then acc
          else
            (let cleanPath = cleanSourcePath sp
             in if isInternalPath cleanPath then acc
                else if isInvalidPath cleanPath then acc
                else
                  (let sourceFilename = ''sources/'' @ cleanPath;
                       finalSourceFilename =
                         uniqueFilename (downloadedFiles st) sourceFilename sourceFilename 1
                   in (Suc extractedCount,
                       st\<lparr>downloadedFiles :=
                            Map_set (downloadedFiles st) finalSourceFilename (sourceRecord sp sc)\<rparr>)))
      | _ \<Rightarrow> acc)"

function embeddedLoop :: "string option list \<Rightarrow> string option list \<Rightarrow> nat \<Rightarrow> nat \<times> downloader \<Rightarrow> nat \<times> downloader" where
  "embeddedLoop srcs cnts i acc =
     (if i < length srcs
      then embeddedLoop srcs cnts (Suc i) (embeddedEntry (js_nth srcs i) (js_nth cnts i) acc)
      else acc)"
  by pat_completeness auto
termination
  by (relation "measure (\<lambda>(srcs, cnts, i, acc). length srcs - i)") auto

declare embeddedLoop.simps [simp del]

text \<open>
  The branch for a map without embedded contents. \<open>sourceUrlFor\<close> is the URL that is
  fetched for a path: \<open>None\<close> when there is none (no base, or \<open>new URL\<close> throws).
\<close>

definition baseUrlFor :: "sourceMap \<Rightarrow> downloader \<Rightarrow> string \<Rightarrow> string option" where
  "baseUrlFor sm st jsFilename =
     (if truthy (sourceRoot sm) then sourceRoot sm
      else (case Map_get (downloadedFiles st) jsFilename of
              None \<Rightarrow> None
            | Some file \<Rightarrow> url file))"

definition sourceUrlFor :: "platform \<Rightarrow> sourceMap \<Rightarrow> downloader \<Rightarrow> string \<Rightarrow> string \<Rightarrow> string option" where
  "sourceUrlFor p sm st jsFilename sourcePath =
     (if startsWith sourcePath ''http'' then Some sourcePath
      else (let baseUrl = baseUrlFor sm st jsFilename
            in if truthy baseUrl
               then (case new_URL p sourcePath baseUrl of
                       None \<Rightarrow> None
                     | Some u \<Rightarrow> if href u = [] then None else Some (href u))
               else None))"

definition fetchedEntry :: "platform \<Rightarrow> sourceMap \<Rightarrow> string \<Rightarrow> string option \<Rightarrow> nat \<times> downloader \<Rightarrow> nat \<times> downloader" where
  "fetchedEntry p sm jsFilename sourcePath acc =
     (case (sourcePath, acc) of
        (Some sp, (extractedCount, st)) \<Rightarrow>
          if sp = [] then acc
          else (case sourceUrlFor p sm st jsFilename sp of
                  None \<Rightarrow> acc
                | Some sourceUrl \<Rightarrow>
                    (case fetchWithCORS_adv p st sourceUrl of
                       (Inl e, st1) \<Rightarrow> (extractedCount, st1)
                     | (Inr response, st1) \<Rightarrow>
                         (case resp_text response of
                            None \<Rightarrow> (extractedCount, st1)
                          | Some body \<Rightarrow>
                              (let cleanPath = cleanSourcePath sp
                               in if \<not> js_includes cleanPath ''webpack/'' \<and>
                                     \<not> js_includes cleanPath ''node_modules/'' \<and>
                                     \<not> startsWith cleanPath ''(webpack)''
                                  then (Suc extractedCount,
                                        st1\<lparr>downloadedFiles :=
                                              Map_set (downloadedFiles st1) (''sources/'' @ cleanPath)
                                                \<lparr>content = Text body, fsize = length body,
                                                 ftype = TypeName ''source'', url = Some sourceUrl,
                                                 contentType = None, originalPath = Some sp\<rparr>\<rparr>)
                                  else (extractedCount, st1)))))
      | _ \<Rightarrow> acc)"

fun fetchedLoop :: "platform \<Rightarrow> sourceMap \<Rightarrow> string \<Rightarrow> string option list \<Rightarrow> nat \<times> downloader \<Rightarrow> nat \<times> downloader" where
  "fetchedLoop p sm jsFilename [] acc = acc"
| "fetchedLoop p sm jsFilename (sourcePath # rest) acc =
     fetchedLoop p sm jsFilename rest (fetchedEntry p sm jsFilename sourcePath acc)"

definition extractSourceFilesAdvanced :: "platform \<Rightarrow> downloader \<Rightarrow> string \<Rightarrow> string \<Rightarrow> nat \<times> downloader" where
  "extractSourceFilesAdvanced p st mapContent jsFilename =
     (case JSON_parse p mapContent of
        None \<Rightarrow> (0, st)
      | Some sm \<Rightarrow>
          (case sources sm of
             None \<Rightarrow> (0, st)
           | Some srcs \<Rightarrow>
               (case sourcesContent sm of
                  Some cnts \<Rightarrow> embeddedLoop srcs cnts 0 (0, st)
                | None \<Rightarrow> fetchedLoop p sm jsFilename srcs (0, st))))"

section \<open>Notions used to state the properties\<close>

text \<open>The direct request of \<open>fetchWithCORS p st u\<close> resolves with a status from 200 to 299.\<close>

definition direct_ok :: "platform \<Rightarrow> downloader \<Rightarrow> string \<Rightarrow> bool" where
  "direct_ok p st u =
     (case fetch p (length (requests st)) (Direct u) of Resolved r \<Rightarrow> ok r | Rejected m \<Rightarrow> False)"

text \<open>
  What the relay request of \<open>fetchWithCORS p st u\<close> gives, read off the platform: the
  contents under a synthetic response, or the failure of the relay request.
\<close>

definition relay_result :: "platform \<Rightarrow> downloader \<Rightarrow> string \<Rightarrow> error + responseObj" where
  "relay_result p st u =
     (case fetch p (Suc (length (requests st))) (ViaProxy u) of
        Rejected m \<Rightarrow> Inl (BothFailed (NetworkFailure m))
      | Resolved r \<Rightarrow>
          if \<not> ok r then Inl (BothFailed (ProxyReturned (status r)))
          else (case json_contents r of
                  None \<Rightarrow> Inl (BothFailed JsonRejected)
                | Some c \<Rightarrow> Inr (Fake c)))"

text \<open>The requests for a URL itself, in the order in which they were issued.\<close>

definition directRequests :: "downloader \<Rightarrow> string list" where
  "directRequests st = List.map_filter (\<lambda>rq. case rq of Direct u \<Rightarrow> Some u | ViaProxy u \<Rightarrow> None) (requests st)"

text \<open>
  The URL that \<open>extractSourceFilesAdvanced\<close> fetches for an entry of \<open>sources\<close>, if any,
  and the record it stores for the text it gets.
\<close>

definition entryUrl :: "platform \<Rightarrow> sourceMap \<Rightarrow> downloader \<Rightarrow> string \<Rightarrow> string option \<Rightarrow> string option" where
  "entryUrl p sm st jsFilename sourcePath =
     (case sourcePath of
        None \<Rightarrow> None
      | Some sp \<Rightarrow> if sp = [] then None else sourceUrlFor p sm st jsFilename sp)"

definition fetchedRecord :: "string \<Rightarrow> string \<Rightarrow> string \<Rightarrow> fileData" where
  "fetchedRecord sourcePath sourceUrl body =
     \<lparr>content = Text body, fsize = length body, ftype = TypeName ''source'', url = Some sourceUrl,
      contentType = None, originalPath = Some sourcePath\<rparr>"

text \<open>
  The base against which paths are resolved does not move while the entries are stored:
  the map names a source root, or the script is not itself stored under \<open>sources/\<close>.
\<close>

definition stableBase :: "sourceMap \<Rightarrow> string \<Rightarrow> bool" where
  "stableBase sm jsFilename = (truthy (sourceRoot sm) \<or> \<not> startsWith jsFilename ''sources/'')"

text \<open>
  The entries of a source map that pass \<open>shouldExtractSource\<close>, in the order of their
  index: at each index the path is \<open>sources[i]\<close> and the content \<open>sourcesContent[i]\<close>.
\<close>

definition pairAt :: "string option list \<Rightarrow> string option list \<Rightarrow> nat \<Rightarrow> (string \<times> string) option" where
  "pairAt srcs cnts i =
     (case (js_nth srcs i, js_nth cnts i) of
        (Some sp, Some sc) \<Rightarrow> if shouldExtractSource (Some sp) (Some sc) then Some (sp, sc) else None
      | _ \<Rightarrow> None)"

definition pairedEntries :: "string option list \<Rightarrow> string option list \<Rightarrow> (string \<times> string) list" where
  "pairedEntries srcs cnts = List.map_filter (pairAt srcs cnts) [0..<length srcs]"

section \<open>Scenarios\<close>

text \<open>A platform without network, and a downloader at the start of a session.\<close>

definition offline :: platform where
  "offline =
     \<lparr>fetch = (\<lambda>n rq. Rejected ''Failed to fetch''), stopClicked = (\<lambda>n. False),
      new_URL = (\<lambda>u b. None), JSON_parse = (\<lambda>s. None), parseFromString = (\<lambda>s. []),
      TextEncoder_encode = (\<lambda>s. map of_char s), Date_now = ''0''\<rparr>"

definition idle :: downloader where
  "idle =
     \<lparr>downloadedFiles = [], downloadedUrls = [], isDownloading = True,
      stats = \<lparr>totalFiles = 0, sourceFiles = 0, jsFiles = 0, cssFiles = 0, imageFiles = 0,
               totalSize = 0\<rparr>,
      requests = []\<rparr>"

text \<open>
  The direct request for \<open>https://x.test/logo.png\<close> is answered 404, the relay answers
  200 with the body of the error page under \<open>contents\<close>.
\<close>

definition notFound :: response where
  "notFound =
     \<lparr>status = 404, statusText = ''Not Found'', headers_content_type = Some ''image/png'',
      text_body = Some ''gone'', arrayBuffer = Some [103, 111, 110, 101], json_contents = None\<rparr>"

definition relayed :: response where
  "relayed =
     \<lparr>status = 200, statusText = ''OK'', headers_content_type = Some ''application/json'',
      text_body = Some ''{}'', arrayBuffer = Some [123, 125], json_contents = Some (Some ''gone'')\<rparr>"

definition relay404 :: platform where
  "relay404 =
     offline\<lparr>fetch := (\<lambda>n rq. case rq of Direct u \<Rightarrow> Resolved notFound
                                     | ViaProxy u \<Rightarrow> Resolved relayed),
             new_URL := (\<lambda>u b. if u = ''https://x.test/logo.png''
                                 then Some \<lparr>href = u, pathname = ''/logo.png'', search = []\<rparr>
                                 else None)\<rparr>"

text \<open>Every request is answered 200.\<close>

definition found :: response where
  "found =
     \<lparr>status = 200, statusText = ''OK'', headers_content_type = Some ''image/png'',
      text_body = Some ''png'', arrayBuffer = Some [112, 110, 103], json_contents = None\<rparr>"

definition online :: platform where
  "online = offline\<lparr>fetch := (\<lambda>n rq. Resolved found)\<rparr>"

text \<open>The main page, and a second page whose URL ends with a slash.\<close>

definition pageA :: fileData where
  "pageA = \<lparr>content = Text ''<html>A</html>'', fsize = 14, ftype = TypeName ''html'',
            url = Some ''https://x.test/'', contentType = Some ''text/html'', originalPath = None\<rparr>"

definition pageB :: fileData where
  "pageB = \<lparr>content = Text ''<html>B</html>'', fsize = 14, ftype = TypeName ''html'',
            url = Some ''https://x.test/docs/'', contentType = Some ''text/html'', originalPath = None\<rparr>"

text \<open>Two source maps with embedded contents.\<close>

definition bundleMap :: platform where
  "bundleMap =
     offline\<lparr>JSON_parse := (\<lambda>s. if s = ''{ab}''
        then Some \<lparr>sources = Some [Some ''a.js'', Some ''b.js''],
                   sourcesContent = Some [Some ''X'', Some ''Y''], sourceRoot = None\<rparr>
        else if s = ''{webpack}''
        then Some \<lparr>sources = Some [Some ''webpack:///./src/app.js''],
                   sourcesContent = Some [Some ''X''], sourceRoot = None\<rparr>
        else None)\<rparr>"

text \<open>A script answered with status 200.\<close>

definition script :: "string \<Rightarrow> response" where
  "script body =
     \<lparr>status = 200, statusText = ''OK'', headers_content_type = Some ''application/javascript'',
      text_body = Some body, arrayBuffer = Some [], json_contents = None\<rparr>"

text \<open>
  A source map without embedded contents; the request for \<open>a.js\<close> fails, directly and
  through the relay, the one for \<open>b.js\<close> succeeds.
\<close>

definition bareSourceMap :: sourceMap where
  "bareSourceMap =
     \<lparr>sources = Some [Some ''a.js'', Some ''b.js''], sourcesContent = None,
      sourceRoot = Some ''https://x.test/src/''\<rparr>"

definition bareMap :: platform where
  "bareMap =
     offline\<lparr>JSON_parse := (\<lambda>s. if s = ''{bare}'' then Some bareSourceMap else None),
             new_URL := (\<lambda>u b. if b = Some ''https://x.test/src/''
                then Some \<lparr>href = ''https://x.test/src/'' @ u, pathname = ''/src/'' @ u, search = []\<rparr>
                else None),
             fetch := (\<lambda>n rq. if rq = Direct ''https://x.test/src/b.js''
                then Resolved (script ''B'') else Rejected ''Failed to fetch'')\<rparr>"

text \<open>
  Two scripts with the same file name in different directories, and a third one; the
  user clicks the stop button while the second request is awaited.
\<close>

definition stopDuringSecond :: platform where
  "stopDuringSecond =
     offline\<lparr>fetch := (\<lambda>n rq. case rq of
                  Direct u \<Rightarrow> if u = ''https://x.test/a/app.js'' then Resolved (script ''A'')
                              else if u = ''https://x.test/b/app.js'' then Resolved (script ''B'')
                              else Rejected ''Failed to fetch''
                | ViaProxy u \<Rightarrow> Rejected ''Failed to fetch''),
             stopClicked := (\<lambda>n. n = 1),
             new_URL := (\<lambda>u b.
                  if u = ''https://x.test/a/app.js''
                  then Some \<lparr>href = u, pathname = ''/a/app.js'', search = []\<rparr>
                  else if u = ''https://x.test/b/app.js''
                  then Some \<lparr>href = u, pathname = ''/b/app.js'', search = []\<rparr>
                  else if u = ''https://x.test/c.js''
                  then Some \<lparr>href = u, pathname = ''/c.js'', search = []\<rparr>
                  else None)\<rparr>"

definition afterFirst :: downloader where
  "afterFirst = downloadStaticResources stopDuringSecond idle [''https://x.test/a/app.js'']"

definition afterStop :: downloader where
  "afterStop = downloadStaticResources stopDuringSecond idle
     [''https://x.test/a/app.js'', ''https://x.test/b/app.js'', ''https://x.test/c.js'']"

text \<open>The document of claim C8, as the HTML parser builds it, and a browser that serves it.\<close>

definition page :: string where
  \<open>page = ''<script src="/a.js"></script><link rel="stylesheet" href="/b.css">''\<close>

definition page_doc :: "element list" where
  "page_doc =
     [\<lparr>tagName = ''html'', attributes = []\<rparr>,
      \<lparr>tagName = ''head'', attributes = []\<rparr>,
      \<lparr>tagName = ''script'', attributes = [(''src'', ''/a.js'')]\<rparr>,
      \<lparr>tagName = ''link'', attributes = [(''rel'', ''stylesheet''), (''href'', ''/b.css'')]\<rparr>,
      \<lparr>tagName = ''body'', attributes = []\<rparr>]"

definition absolute :: "string \<Rightarrow> string \<Rightarrow> urlObj" where
  "absolute origin path = \<lparr>href = origin @ path, pathname = path, search = []\<rparr>"

definition browser :: platform where
  "browser =
     offline\<lparr>parseFromString := (\<lambda>s. if s = page then page_doc else []),
             new_URL := (\<lambda>u b.
               if prefix ''https://x.test/'' u then Some (absolute ''https://x.test'' (drop 14 u))
               else if b = Some ''https://x.test/'' \<and> prefix ''/'' u
               then Some (absolute ''https://x.test'' u)
               else None)\<rparr>"

section \<open>Properties of path cleaning\<close>

subsection \<open>Each regular expression does what its step says\<close>

lemma matchHere_lits:
  "matchHere (lits p @ r) d s =
     (if prefix p s then map_option (\<lambda>n. length p + n) (matchHere r d (drop (length p) s)) else None)"
proof (induction p arbitrary: s)
  case Nil
  show ?case by (cases "matchHere r d s") (simp_all add: lits_def)
next
  case (Cons a p)
  have lits_Cons: "lits (a # p) = One (Lit a) # lits p" by (simp add: lits_def)
  show ?case
  proof (cases s)
    case Nil
    then show ?thesis by (simp add: lits_Cons)
  next
    case (Cons c s')
    then show ?thesis
      by (cases "matchHere r d (drop (length p) s')") (simp_all add: lits_Cons Cons.IH)
  qed
qed

lemma matchHere_lits_only:
  "matchHere (lits p) False s = (if prefix p s then Some (length p) else None)"
  using matchHere_lits [of p "[]" False s] by simp

lemma replace_prefix:
  "js_replace \<lparr>items = lits p, caret = True, dollar = False, global = False\<rparr> [] s =
     (if prefix p s then drop (length p) s else s)"
  by (simp add: js_replace_def matchHere_lits_only)

lemma matchHere_until_slash:
  "matchHere [Star (NoneOf ''/''), One (Lit CHR ''/'')] False s =
     (if CHR ''/'' \<in> set s then Some (Suc (length (takeWhile (\<lambda>c. c \<noteq> CHR ''/'') s))) else None)"
  by (induction s) auto

lemma drop_takeWhile_len: "drop (Suc (length (takeWhile P s))) s = drop 1 (dropWhile P s)"
  by (induction s) auto

lemma drop_add_takeWhile:
  "drop (k + Suc (length (takeWhile P (drop k s)))) s = drop 1 (dropWhile P (drop k s))"
  using drop_takeWhile_len [of P "drop k s"] by (simp add: add.commute)

lemma replace_host_generic:
  "js_replace \<lparr>items = lits p @ [Star (NoneOf ''/''), One (Lit CHR ''/'')],
      caret = True, dollar = False, global = False\<rparr> [] s =
     (if prefix p s \<and> CHR ''/'' \<in> set (drop (length p) s)
      then drop 1 (dropWhile (\<lambda>c. c \<noteq> CHR ''/'') (drop (length p) s)) else s)"
  using drop_add_takeWhile [of "length p" "\<lambda>c. c \<noteq> CHR ''/''" s]
  by (simp add: js_replace_def matchHere_lits matchHere_until_slash del: matchHere.simps)

lemma replace_webpack_host: "js_replace re_webpack_host [] s = stripWebpackHost s"
  unfolding re_webpack_host_def stripWebpackHost_def by (rule replace_host_generic)

lemma matchHere_dot_star:
  "matchHere [Star dot] True s =
     (if list_ex (\<lambda>x. x \<in> set lineTerminators) s then None else Some (length s))"
  by (induction s) (auto simp: dot_def)

lemma replace_query: "js_replace re_query [] s = stripQueryLine s"
proof -
  have "(case findMatch [One (Lit CHR ''?''), Star dot] True s of
           None \<Rightarrow> s | Some (i, n) \<Rightarrow> take i s @ drop (i + n) s) = stripQueryLine s"
  proof (induction s)
    case Nil
    then show ?case by simp
  next
    case (Cons c s)
    then show ?case
      by (auto simp: matchHere_dot_star split: option.splits simp del: matchHere.simps(5))
  qed
  then show ?thesis
    by (simp add: js_replace_def re_query_def split: option.splits prod.splits)
qed

lemma replace_unsafe: "js_replace re_unsafe ''_'' s = replaceUnsafe s"
proof -
  have "replaceAll [One (OneOf unsafeChars)] False ''_'' s = replaceUnsafe s"
    by (induction s) (auto simp: replaceUnsafe_def)
  then show ?thesis by (simp add: js_replace_def re_unsafe_def)
qed

lemma replace_leading_slash: "js_replace re_leading_slash [] s = stripLeadingSlash s"
  unfolding re_leading_slash_def stripLeadingSlash_def by (rule replace_prefix)

lemma replace_webpack_bare: "js_replace re_webpack_bare [] s = stripWebpackBare s"
  unfolding re_webpack_bare_def stripWebpackBare_def by (rule replace_prefix)

lemma replace_dot_slash: "js_replace re_dot_slash [] s = stripDotSlash s"
  unfolding re_dot_slash_def stripDotSlash_def by (rule replace_prefix)

lemma cleanSourcePath_eq_steps: "cleanSourcePath s = cleanPath_steps s"
  unfolding cleanSourcePath_def cleanPath_steps_def replace_unsafe replace_query
    replace_webpack_host replace_leading_slash replace_webpack_bare replace_dot_slash ..

lemma stripQueryLine_no_lt:
  "\<not> list_ex (\<lambda>x. x \<in> set lineTerminators) s \<Longrightarrow> stripQueryLine s = stripQuery s"
  by (induction s) (auto simp: stripQuery_def)

lemma set_stripped_subset:
  "set (stripDotSlash (stripWebpackBare (stripWebpackHost (stripLeadingSlash s)))) \<subseteq> set s"
proof -
  have drop_sub: "set (drop n xs) \<subseteq> set xs" for n and xs :: string
    by (rule set_drop_subset)
  have a: "set (stripLeadingSlash s) \<subseteq> set s"
    unfolding stripLeadingSlash_def using drop_sub by simp
  have b: "set (stripWebpackHost x) \<subseteq> set x" for x
  proof -
    have "set (drop 1 (dropWhile (\<lambda>c. c \<noteq> CHR ''/'') (drop (length ''webpack://'') x))) \<subseteq> set x"
      by (meson drop_sub set_dropWhileD subsetD subsetI)
    then show ?thesis unfolding stripWebpackHost_def by simp
  qed
  have c: "set (stripWebpackBare x) \<subseteq> set x" for x
    unfolding stripWebpackBare_def using drop_sub by simp
  have d: "set (stripDotSlash x) \<subseteq> set x" for x
    unfolding stripDotSlash_def using drop_sub by simp
  from a b c d show ?thesis by (meson subset_trans)
qed

lemma cleanPath_steps_eq_spec:
  assumes "\<not> list_ex (\<lambda>x. x \<in> set lineTerminators) s"
  shows "cleanPath_steps s = cleanPath_spec s"
proof -
  let ?t = "stripDotSlash (stripWebpackBare (stripWebpackHost (stripLeadingSlash s)))"
  from assms set_stripped_subset [of s]
  have "\<not> list_ex (\<lambda>x. x \<in> set lineTerminators) ?t"
    by (auto simp: list_ex_iff)
  then have "stripQueryLine ?t = stripQuery ?t" by (rule stripQueryLine_no_lt)
  then show ?thesis by (simp add: cleanPath_steps_def cleanPath_spec_def)
qed

lemma clean_webpack_example: "cleanSourcePath ''webpack:///./src/app.js'' = ''src/app.js''"
  by (simp add: cleanSourcePath_eq_steps cleanPath_steps_def stripLeadingSlash_def
      stripWebpackHost_def stripWebpackBare_def stripDotSlash_def replaceUnsafe_def
      unsafeChars_def lineTerminators_def)

lemma shouldExtract_app: "c \<noteq> [] \<Longrightarrow> shouldExtractSource (Some ''src/app.js'') (Some c)"
  by (simp add: skipPatterns_def js_includes_def sublist_Cons_right)

lemma app_not_internal: "\<not> isInternalPath ''src/app.js'' \<and> \<not> isInvalidPath ''src/app.js''"
  by (simp add: isInternalPath_def isInvalidPath_def js_includes_def startsWith_def
      sublist_Cons_right)

subsection \<open>Claim C5\<close>

text \<open>
  On every path \<open>cleanSourcePath\<close> is the sequence of the six steps, the fifth one
  taken as the regular expression has it; on a path without line terminator the fifth
  step strips everything from the first question mark onward. \<open>cleanSourcePath\<close> of
  \<open>webpack:///./src/app.js\<close> is \<open>src/app.js\<close>, and neither \<open>shouldExtractSource\<close> (with
  a non-empty content) nor the filter of \<open>extractSourceFilesAdvanced\<close> discards the path
  \<open>src/app.js\<close>.
\<close>

lemma cleanSourcePath_as_worded:
  "cleanSourcePath s = cleanPath_steps s
   \<and> (\<not> list_ex (\<lambda>x. x \<in> set lineTerminators) s \<longrightarrow> cleanSourcePath s = cleanPath_spec s)
   \<and> cleanSourcePath ''webpack:///./src/app.js'' = ''src/app.js''
   \<and> (c \<noteq> [] \<longrightarrow>
        shouldExtractSource (Some (cleanSourcePath ''webpack:///./src/app.js'')) (Some c))
   \<and> \<not> isInternalPath (cleanSourcePath ''webpack:///./src/app.js'')
   \<and> \<not> isInvalidPath (cleanSourcePath ''webpack:///./src/app.js'')"
  using cleanSourcePath_eq_steps [of s] cleanPath_steps_eq_spec [of s]
    shouldExtract_app [of c] app_not_internal
  by (simp add: clean_webpack_example)

lemma cleanSourcePath_as_worded_example:
  "cleanSourcePath ''/webpack://host/./a<b.js?v=1'' = ''a_b.js''"
proof -
  have h: "\<not> list_ex (\<lambda>x. x \<in> set lineTerminators) ''/webpack://host/./a<b.js?v=1''"
    by (simp add: lineTerminators_def)
  have v: "cleanPath_spec ''/webpack://host/./a<b.js?v=1'' = ''a_b.js''"
    by (simp add: cleanPath_spec_def stripLeadingSlash_def stripWebpackHost_def
        stripWebpackBare_def stripDotSlash_def stripQuery_def replaceUnsafe_def unsafeChars_def)
  from cleanSourcePath_as_worded [of "''/webpack://host/./a<b.js?v=1''" "''X''"] h
  have "cleanSourcePath ''/webpack://host/./a<b.js?v=1''
          = cleanPath_spec ''/webpack://host/./a<b.js?v=1''"
    by blast
  with v show ?thesis by (simp only:)
qed

text \<open>
  C5: the sequence of the claim is what \<open>cleanSourcePath\<close> sets out to do, and it does
  it on every path without line terminator (\<open>cleanSourcePath_as_worded\<close>). The fifth step
  misses a case: it is the regular expression \<^verbatim>\<open>/\?.*$/\<close> without the flag \<open>s\<close>, whose
  dot does not cross a line terminator and whose \<open>$\<close> is the end of the input. On the
  path \<open>a?b\<close>, line feed, \<open>c\<close> the question mark is followed by a line feed, so nothing
  is stripped and the last step turns the question mark into an underscore; stripping
  everything from the first question mark onward, as the claim says, leaves \<open>a\<close>.
\<close>

theorem cleanSourcePath_keeps_query:
  "cleanSourcePath [CHR ''a'', CHR ''?'', CHR ''b'', CHR 0x0A, CHR ''c'']
     = [CHR ''a'', CHR ''_'', CHR ''b'', CHR 0x0A, CHR ''c'']
   \<and> cleanPath_spec [CHR ''a'', CHR ''?'', CHR ''b'', CHR 0x0A, CHR ''c''] = ''a''"
  by (simp add: cleanSourcePath_eq_steps cleanPath_steps_def cleanPath_spec_def
      stripLeadingSlash_def stripWebpackHost_def stripWebpackBare_def stripDotSlash_def
      stripQuery_def replaceUnsafe_def unsafeChars_def lineTerminators_def)

section \<open>Properties of the network fetcher\<close>

lemma requests_await [simp]:
  "requests (snd (await_fetch p st rq)) = requests st @ [rq]"
  by (simp add: await_fetch_def Let_def stopDownload_def)

lemma fst_await [simp]: "fst (await_fetch p st rq) = fetch p (length (requests st)) rq"
  by (simp add: await_fetch_def Let_def)

lemma await_eq:
  "await_fetch p st rq = (fetch p (length (requests st)) rq, snd (await_fetch p st rq))"
  by (simp add: await_fetch_def Let_def)

lemma fetchViaProxy_requests:
  "requests (snd (fetchViaProxy p st u)) = requests st @ [ViaProxy u]"
  unfolding fetchViaProxy_def
  by (subst await_eq) (auto split: fetched.splits option.splits)

lemma fetchViaProxy_result:
  "fst (fetchViaProxy p st u) =
     (case fetch p (length (requests st)) (ViaProxy u) of
        Rejected m \<Rightarrow> Inl (BothFailed (NetworkFailure m))
      | Resolved r \<Rightarrow>
          if \<not> ok r then Inl (BothFailed (ProxyReturned (status r)))
          else (case json_contents r of None \<Rightarrow> Inl (BothFailed JsonRejected)
                | Some c \<Rightarrow> Inr (Fake c)))"
  unfolding fetchViaProxy_def
  by (subst await_eq) (auto split: fetched.splits option.splits)

lemma fetchWithCORS_requests:
  "requests (snd (fetchWithCORS p st u)) =
     requests st @ (if direct_ok p st u then [Direct u] else [Direct u, ViaProxy u])"
  unfolding fetchWithCORS_def direct_ok_def
  by (subst await_eq) (auto split: fetched.splits simp: fetchViaProxy_requests)

lemma fetchWithCORS_result:
  "fst (fetchWithCORS p st u) =
     (case fetch p (length (requests st)) (Direct u) of
        Resolved r \<Rightarrow> if ok r then Inr (Native r)
                       else fst (fetchViaProxy p (snd (await_fetch p st (Direct u))) u)
      | Rejected m \<Rightarrow> fst (fetchViaProxy p (snd (await_fetch p st (Direct u))) u))"
  unfolding fetchWithCORS_def
  by (subst await_eq) (auto split: fetched.splits)

lemma fetchWithCORS_not_ok:
  "\<not> direct_ok p st u \<Longrightarrow> fst (fetchWithCORS p st u) = relay_result p st u"
  by (auto simp: fetchWithCORS_result fetchViaProxy_result relay_result_def direct_ok_def
      split: fetched.splits)

lemma fetchWithCORS_ok:
  "direct_ok p st u \<Longrightarrow>
   \<exists>r. fetch p (length (requests st)) (Direct u) = Resolved r \<and>
       fst (fetchWithCORS p st u) = Inr (Native r)"
  by (auto simp: fetchWithCORS_result direct_ok_def split: fetched.splits)

lemma direct_ok_online: "direct_ok online idle ''https://x.test/logo.png''"
  by (simp add: direct_ok_def online_def offline_def found_def ok_def)

lemma not_direct_ok_relay404: "\<not> direct_ok relay404 idle ''https://x.test/logo.png''"
  by (simp add: direct_ok_def relay404_def offline_def notFound_def ok_def)

lemma relay_result_relay404:
  "relay_result relay404 idle ''https://x.test/logo.png'' = Inr (Fake (Some ''gone''))"
  by (simp add: relay_result_def relay404_def offline_def relayed_def ok_def)

subsection \<open>Claim C2\<close>

text \<open>
  C2, as stated, fails: the direct request for the logo is answered with the HTTP error
  status 404, which is no network-level failure; \<open>fetchWithCORS\<close> then asks the relay,
  and the caller gets the relay's contents as a response, not an error with the status 404.
\<close>

theorem relay_on_http_error_counterexample:
  "ok notFound = False \<and> status notFound = 404
   \<and> fetch relay404 0 (Direct ''https://x.test/logo.png'') = Resolved notFound
   \<and> fst (fetchWithCORS relay404 idle ''https://x.test/logo.png'') = Inr (Fake (Some ''gone''))
   \<and> requests (snd (fetchWithCORS relay404 idle ''https://x.test/logo.png''))
       = [Direct ''https://x.test/logo.png'', ViaProxy ''https://x.test/logo.png'']"
  by (simp add: fetchWithCORS_def fetchViaProxy_def await_fetch_def relay404_def offline_def
      idle_def notFound_def relayed_def ok_def Let_def)

text \<open>
  C2, amended: \<open>fetchWithCORS\<close> issues the direct request and returns its response when
  the status is from 200 to 299. In every other case, a network-level failure as well as
  an HTTP error status, it issues exactly one request to the relay, and the result is
  decided by the relay request alone: the relay's contents under a synthetic response, or
  an error that carries the failure of the relay request (rejection, status of the relay,
  unreadable JSON). The status of the direct response is not surfaced, and no further
  request is made.
\<close>

theorem fetchWithCORS_fallback:
  "requests (snd (fetchWithCORS p st u)) =
     requests st @ (if direct_ok p st u then [Direct u] else [Direct u, ViaProxy u])
   \<and> (direct_ok p st u \<longrightarrow>
        (\<exists>r. fetch p (length (requests st)) (Direct u) = Resolved r \<and>
             fst (fetchWithCORS p st u) = Inr (Native r)))
   \<and> (\<not> direct_ok p st u \<longrightarrow> fst (fetchWithCORS p st u) = relay_result p st u)"
  using fetchWithCORS_requests [of p st u] fetchWithCORS_ok [of p st u]
    fetchWithCORS_not_ok [of p st u]
  by blast

theorem fetchWithCORS_fallback_witness:
  "direct_ok online idle ''https://x.test/logo.png''
   \<and> (\<exists>r. fetch online (length (requests idle)) (Direct ''https://x.test/logo.png'') = Resolved r \<and>
           fst (fetchWithCORS online idle ''https://x.test/logo.png'') = Inr (Native r))
   \<and> \<not> direct_ok relay404 idle ''https://x.test/logo.png''
   \<and> fst (fetchWithCORS relay404 idle ''https://x.test/logo.png'') = Inr (Fake (Some ''gone''))"
  using fetchWithCORS_fallback [of online idle "''https://x.test/logo.png''"]
    fetchWithCORS_fallback [of relay404 idle "''https://x.test/logo.png''"]
    direct_ok_online not_direct_ok_relay404 relay_result_relay404
  by simp

subsection \<open>Claim C10\<close>

lemma relay_result_shape:
  "relay_result p st u = Inr r \<Longrightarrow>
   \<exists>x c. fetch p (Suc (length (requests st))) (ViaProxy u) = Resolved x \<and>
         json_contents x = Some c \<and> r = Fake c"
  by (auto simp: relay_result_def split: fetched.splits if_splits option.splits)

lemma fake_text_plain:
  "getContentType (Fake c) = ''text/plain''"
  "getResponseContent p (Fake c) ''text/plain'' = map_option Text c"
  by (simp_all add: getContentType_def getResponseContent_def js_includes_def sublist_Cons_right)

lemma Map_get_saveFile:
  "Map_get (downloadedFiles (saveFile st k v)) k = Some v"
  by (simp add: saveFile_def Map_get_def Map_set_def update_conv')

lemma downloadSingleResource_relay:
  assumes "\<not> direct_ok p st u" "u \<notin> set (downloadedUrls st)"
    and "fst (downloadSingleResource p st u) = None"
  shows "\<exists>x t. fetch p (Suc (length (requests st))) (ViaProxy u) = Resolved x \<and>
               json_contents x = Some (Some t) \<and>
               Map_get (downloadedFiles (snd (downloadSingleResource p st u)))
                 (generateFilename p u ''text/plain'')
               = Some \<lparr>content = Text t, fsize = length t,
                       ftype = determineFileType (generateFilename p u ''text/plain'') ''text/plain'',
                       url = Some u, contentType = Some ''text/plain'', originalPath = None\<rparr>"
proof -
  obtain res st1 where f: "fetchWithCORS p st u = (res, st1)" by (cases "fetchWithCORS p st u")
  with assms(1) have res: "res = relay_result p st u"
    using fetchWithCORS_not_ok [of p st u] by simp
  show ?thesis
  proof (cases res)
    case (Inl e)
    with f assms(2,3) show ?thesis by (simp add: downloadSingleResource_def)
  next
    case (Inr r)
    with res relay_result_shape [of p st u r] obtain x c
      where x: "fetch p (Suc (length (requests st))) (ViaProxy u) = Resolved x"
        "json_contents x = Some c" and r: "r = Fake c" by auto
    show ?thesis
    proof (cases c)
      case None
      with f Inr r assms(2,3) show ?thesis
        by (simp add: downloadSingleResource_def fake_text_plain)
    next
      case (Some t)
      with f Inr r assms(2) x show ?thesis
        by (simp add: downloadSingleResource_def fake_text_plain Let_def Map_get_saveFile)
    qed
  qed
qed

text \<open>
  C10: whenever the direct request does not resolve with a status from 200 to 299, the
  response that \<open>fetchWithCORS\<close> hands back, if any, is the object built around the
  \<open>contents\<close> field of the relay's answer: it reports \<open>ok\<close>, status 200 and the content
  type \<open>text/plain\<close>, whatever the platform answered for the resource, its \<open>text()\<close> is
  that field, and \<open>getResponseContent\<close> reads it as text. \<open>downloadSingleResource\<close> then
  stores the resource with the relayed contents as text content, never a buffer, and
  with content type \<open>text/plain\<close>.
\<close>

theorem relay_response_shape:
  "\<not> direct_ok p st u \<longrightarrow>
     (\<forall>r. fst (fetchWithCORS p st u) = Inr r \<longrightarrow>
        (\<exists>x c. fetch p (Suc (length (requests st))) (ViaProxy u) = Resolved x \<and>
               json_contents x = Some c \<and> r = Fake c \<and> resp_text r = c \<and>
               getResponseContent p r (getContentType r) = map_option Text c)
        \<and> resp_ok r \<and> resp_status r = 200
        \<and> headers_get_content_type r = Some ''text/plain''
        \<and> getContentType r = ''text/plain'')
     \<and> (u \<notin> set (downloadedUrls st) \<longrightarrow> fst (downloadSingleResource p st u) = None \<longrightarrow>
          (\<exists>x t. fetch p (Suc (length (requests st))) (ViaProxy u) = Resolved x \<and>
                 json_contents x = Some (Some t) \<and>
                 Map_get (downloadedFiles (snd (downloadSingleResource p st u)))
                   (generateFilename p u ''text/plain'')
                 = Some \<lparr>content = Text t, fsize = length t,
                         ftype = determineFileType (generateFilename p u ''text/plain'')
                                   ''text/plain'',
                         url = Some u, contentType = Some ''text/plain'',
                         originalPath = None\<rparr>))"
proof (intro impI conjI allI)
  fix r assume a: "\<not> direct_ok p st u" "fst (fetchWithCORS p st u) = Inr r"
  then obtain x c where x: "fetch p (Suc (length (requests st))) (ViaProxy u) = Resolved x"
      "json_contents x = Some c" and r: "r = Fake c"
    using fetchWithCORS_not_ok [of p st u] relay_result_shape [of p st u r] by auto
  show "resp_ok r" "resp_status r = 200" "headers_get_content_type r = Some ''text/plain''"
    "getContentType r = ''text/plain''"
    by (simp_all add: r fake_text_plain)
  show "\<exists>x c. fetch p (Suc (length (requests st))) (ViaProxy u) = Resolved x \<and>
               json_contents x = Some c \<and> r = Fake c \<and> resp_text r = c \<and>
               getResponseContent p r (getContentType r) = map_option Text c"
    using x by (simp add: r fake_text_plain)
next
  assume "\<not> direct_ok p st u" "u \<notin> set (downloadedUrls st)"
    "fst (downloadSingleResource p st u) = None"
  then show "\<exists>x t. fetch p (Suc (length (requests st))) (ViaProxy u) = Resolved x \<and>
                 json_contents x = Some (Some t) \<and>
                 Map_get (downloadedFiles (snd (downloadSingleResource p st u)))
                   (generateFilename p u ''text/plain'')
                 = Some \<lparr>content = Text t, fsize = length t,
                         ftype = determineFileType (generateFilename p u ''text/plain'')
                                   ''text/plain'',
                         url = Some u, contentType = Some ''text/plain'',
                         originalPath = None\<rparr>"
    by (rule downloadSingleResource_relay)
qed

theorem relay_response_shape_witness:
  "\<not> direct_ok relay404 idle ''https://x.test/logo.png''
   \<and> fetch relay404 (Suc (length (requests idle))) (ViaProxy ''https://x.test/logo.png'')
        = Resolved relayed
   \<and> json_contents relayed = Some (Some ''gone'')
   \<and> fst (fetchWithCORS relay404 idle ''https://x.test/logo.png'') = Inr (Fake (Some ''gone''))
   \<and> resp_text (Fake (Some ''gone'')) = Some ''gone''
   \<and> resp_status (Fake (Some ''gone'')) = 200
   \<and> ''https://x.test/logo.png'' \<notin> set (downloadedUrls idle)
   \<and> fst (downloadSingleResource relay404 idle ''https://x.test/logo.png'') = None
   \<and> Map_get (downloadedFiles (snd (downloadSingleResource relay404 idle
             ''https://x.test/logo.png''))) ''logo.png''
        = Some \<lparr>content = Text ''gone'', fsize = 4, ftype = TypeName ''image'',
                url = Some ''https://x.test/logo.png'',
                contentType = Some ''text/plain'', originalPath = None\<rparr>"
proof -
  let ?u = "''https://x.test/logo.png''"
  have a: "\<not> direct_ok relay404 idle ?u"
    by (rule not_direct_ok_relay404)
  have x: "fetch relay404 (Suc (length (requests idle))) (ViaProxy ?u) = Resolved relayed"
    by (simp add: relay404_def offline_def)
  have j: "json_contents relayed = Some (Some ''gone'')" by (simp add: relayed_def)
  have b: "fst (fetchWithCORS relay404 idle ?u) = Inr (Fake (Some ''gone''))"
    using fetchWithCORS_not_ok [OF a] relay_result_relay404 by simp
  have c: "?u \<notin> set (downloadedUrls idle)"
    by (simp add: idle_def)
  have d: "fst (downloadSingleResource relay404 idle ?u) = None"
  proof -
    obtain st1 where "fetchWithCORS relay404 idle ?u = (Inr (Fake (Some ''gone'')), st1)"
      using b by (cases "fetchWithCORS relay404 idle ?u") simp
    with c show ?thesis
      by (simp add: downloadSingleResource_def fake_text_plain Let_def)
  qed
  have name: "generateFilename relay404 ?u ''text/plain'' = ''logo.png''" by code_simp
  have kind: "determineFileType ''logo.png'' ''text/plain'' = TypeName ''image''" by code_simp
  note t = relay_response_shape [of relay404 idle ?u, rule_format, OF a]
  from t [THEN conjunct2, rule_format, OF c d] obtain y t'
    where y: "fetch relay404 (Suc (length (requests idle))) (ViaProxy ?u) = Resolved y"
      "json_contents y = Some (Some t')"
      and s: "Map_get (downloadedFiles (snd (downloadSingleResource relay404 idle ?u)))
                (generateFilename relay404 ?u ''text/plain'')
              = Some \<lparr>content = Text t', fsize = length t',
                      ftype = determineFileType (generateFilename relay404 ?u ''text/plain'')
                                ''text/plain'',
                      url = Some ?u, contentType = Some ''text/plain'', originalPath = None\<rparr>"
    by blast
  from y x j have "t' = ''gone''" by simp
  with s name kind
  have stored: "Map_get (downloadedFiles (snd (downloadSingleResource relay404 idle ?u))) ''logo.png''
        = Some \<lparr>content = Text ''gone'', fsize = 4, ftype = TypeName ''image'',
                url = Some ?u, contentType = Some ''text/plain'', originalPath = None\<rparr>"
    by simp
  from a x j b c d stored show ?thesis by simp
qed

section \<open>Properties of the catalog\<close>

lemma Map_get_saveFile_iff:
  "Map_get (downloadedFiles (saveFile st k v)) k' =
     (if k' = k then Some v else Map_get (downloadedFiles st) k')"
  by (simp add: saveFile_def Map_get_def Map_set_def update_conv')

lemma keys_saveFile:
  "fst ` set (downloadedFiles (saveFile st k v)) = insert k (fst ` set (downloadedFiles st))"
  by (simp add: saveFile_def Map_set_def dom_update)

lemma Map_get_set_other: "k \<noteq> k' \<Longrightarrow> Map_get (Map_set m k v) k' = Map_get m k'"
  by (simp add: Map_get_def Map_set_def update_conv')

lemma sources_name_ne: "\<not> startsWith js ''sources/'' \<Longrightarrow> ''sources/'' @ x \<noteq> js"
  by (auto simp: startsWith_def)

lemma uniqueFilename_fresh: "\<not> Map_has files (uniqueFilename files f final c)"
proof (induction files f final c rule: uniqueFilename.induct)
  case (1 files filename finalFilename counter)
  then show ?case
    by (subst uniqueFilename.simps) simp
qed

lemma embeddedEntry_keeps:
  assumes "Map_get (downloadedFiles st) k = Some v"
  shows "Map_get (downloadedFiles (snd (embeddedEntry a b (n, st)))) k = Some v"
proof -
  have "uniqueFilename (downloadedFiles st) f f 1 \<noteq> k" for f
    using uniqueFilename_fresh [of "downloadedFiles st" f f 1] assms
    by (auto simp: Map_has_def Map_get_def)
  with assms show ?thesis
    by (auto simp: embeddedEntry_def Let_def Map_get_set_other split: option.splits)
qed

subsection \<open>Claim C1\<close>

text \<open>
  C1 holds of the loop in \<open>extractSourceFilesAdvanced\<close> (\<open>uniqueFilename_fresh\<close>,
  \<open>embeddedEntry_keeps\<close>) and fails in \<open>saveFile\<close>, which every insertion of the other
  variant goes through: saving a second page under the key \<open>index.html\<close> replaces the
  record of the first, the catalog still has one entry, and the statistics count two
  files. The suffixed name is built with \<open>filename.replace(ext, '')\<close>, which removes the
  first occurrence of the extension: for \<open>sources/src/app.json.js\<close> the counter does not
  land before the extension.
\<close>

theorem saveFile_overwrites:
  "Map_get (downloadedFiles (saveFile idle ''index.html'' pageA)) ''index.html'' = Some pageA
   \<and> Map_get (downloadedFiles (saveFile (saveFile idle ''index.html'' pageA) ''index.html'' pageB))
        ''index.html'' = Some pageB
   \<and> map fst (downloadedFiles (saveFile (saveFile idle ''index.html'' pageA) ''index.html'' pageB))
        = [''index.html'']
   \<and> totalFiles (stats (saveFile (saveFile idle ''index.html'' pageA) ''index.html'' pageB)) = 2
   \<and> pageA \<noteq> pageB
   \<and> suffixed ''sources/src/app.json.js'' 1 = ''sources/src/appon.js_1.js''"
  by code_simp

section \<open>Properties of source-map extraction\<close>

lemma extractLoop_fold:
  "extractLoop srcs cnts i acc =
     foldl (\<lambda>a j. extractEntry (js_nth srcs j) (js_nth cnts j) a) acc [i..<length srcs]"
proof (induction srcs cnts i acc rule: extractLoop.induct)
  case (1 srcs cnts i acc)
  show ?case
  proof (cases "i < length srcs")
    case True
    with "1.IH" show ?thesis
      by (subst extractLoop.simps) (simp add: upt_conv_Cons)
  next
    case False
    then show ?thesis by (subst extractLoop.simps) simp
  qed
qed

lemma extractEntry_cases:
  "extractEntry a b (n, st) =
     (if \<exists>sp sc. a = Some sp \<and> b = Some sc \<and> shouldExtractSource a b
      then (Suc n, saveFile st (''src/'' @ cleanSourcePath (the a)) (sourceRecord (the a) (the b)))
      else (n, st))"
  by (auto simp: extractEntry_def split: option.splits simp del: shouldExtractSource.simps)

lemma extract_prefix_get:
  assumes "i < n" "n \<le> length srcs"
    and "js_nth srcs i = Some sp" "js_nth cnts i = Some sc" "shouldExtractSource (Some sp) (Some sc)"
    and "\<forall>j sq sd. i < j \<and> j < length srcs \<and> js_nth srcs j = Some sq \<and> js_nth cnts j = Some sd \<and>
           shouldExtractSource (Some sq) (Some sd) \<longrightarrow> cleanSourcePath sq \<noteq> cleanSourcePath sp"
  shows "Map_get (downloadedFiles (snd (foldl (\<lambda>a j. extractEntry (js_nth srcs j) (js_nth cnts j) a)
            (c, st) [0..<n]))) (''src/'' @ cleanSourcePath sp) = Some (sourceRecord sp sc)"
  using assms(1,2)
proof (induction n)
  case 0
  then show ?case by simp
next
  case (Suc n)
  let ?step = "\<lambda>a j. extractEntry (js_nth srcs j) (js_nth cnts j) a"
  obtain c' st' where acc: "foldl ?step (c, st) [0..<n] = (c', st')"
    by (cases "foldl ?step (c, st) [0..<n]")
  show ?case
  proof (cases "i = n")
    case True
    with assms(3-5) acc show ?thesis
      by (simp add: extractEntry_cases Map_get_saveFile_iff del: shouldExtractSource.simps)
  next
    case False
    with Suc.prems have "i < n" "n \<le> length srcs" by simp_all
    with Suc.IH acc
    have ih: "Map_get (downloadedFiles st') (''src/'' @ cleanSourcePath sp) = Some (sourceRecord sp sc)"
      by simp
    from \<open>i < n\<close> Suc.prems assms(6)
    have "\<forall>sq sd. js_nth srcs n = Some sq \<and> js_nth cnts n = Some sd \<and>
            shouldExtractSource (Some sq) (Some sd) \<longrightarrow> cleanSourcePath sq \<noteq> cleanSourcePath sp"
      by (metis Suc_le_lessD)
    with ih acc show ?thesis
      by (auto simp: extractEntry_cases Map_get_saveFile_iff simp del: shouldExtractSource.simps)
  qed
qed

lemma fst_extractEntry:
  "fst (extractEntry a b acc) = (if shouldExtractSource a b then Suc (fst acc) else fst acc)"
  by (cases acc; cases a; cases b)
    (simp_all add: extractEntry_def del: shouldExtractSource.simps(1))

lemma extract_prefix_count:
  "fst (foldl (\<lambda>a j. extractEntry (js_nth srcs j) (js_nth cnts j) a) (c, st) [0..<n])
     = c + length (filter (\<lambda>j. shouldExtractSource (js_nth srcs j) (js_nth cnts j)) [0..<n])"
  by (induction n) (simp_all add: fst_extractEntry del: shouldExtractSource.simps)

lemma extract_count:
  assumes "JSON_parse p mapContent = Some sm" "sources sm = Some srcs" "sourcesContent sm = Some cnts"
  shows "fst (extractSourceFilesFromMap p st mapContent js)
           = length (filter (\<lambda>j. shouldExtractSource (js_nth srcs j) (js_nth cnts j))
               [0..<length srcs])"
  using assms extract_prefix_count [of srcs cnts 0 st "length srcs"]
  by (simp add: extractSourceFilesFromMap_def extractLoop_fold)

lemma extract_pairs:
  assumes "JSON_parse p mapContent = Some sm" "sources sm = Some srcs" "sourcesContent sm = Some cnts"
    and "i < length srcs"
    and "js_nth srcs i = Some sp" "js_nth cnts i = Some sc" "shouldExtractSource (Some sp) (Some sc)"
    and "\<forall>j sq sd. i < j \<and> j < length srcs \<and> js_nth srcs j = Some sq \<and> js_nth cnts j = Some sd \<and>
           shouldExtractSource (Some sq) (Some sd) \<longrightarrow> cleanSourcePath sq \<noteq> cleanSourcePath sp"
  shows "Map_get (downloadedFiles (snd (extractSourceFilesFromMap p st mapContent js)))
           (''src/'' @ cleanSourcePath sp) = Some (sourceRecord sp sc)"
  using assms(1-3) extract_prefix_get [OF assms(4) le_refl assms(5-8), of 0 st]
  by (simp add: extractSourceFilesFromMap_def extractLoop_fold)

lemma clean_a: "cleanSourcePath ''a.js'' = ''a.js''" by code_simp
lemma clean_b: "cleanSourcePath ''b.js'' = ''b.js''" by code_simp

lemma extract_ab:
  assumes "JSON_parse p mapContent = Some sm"
    and "sources sm = Some [Some ''a.js'', Some ''b.js'']"
    and "sourcesContent sm = Some [Some ''X'', Some ''Y'']"
  shows "fst (extractSourceFilesFromMap p st mapContent js) = 2"
    and "Map_get (downloadedFiles (snd (extractSourceFilesFromMap p st mapContent js))) ''src/a.js''
           = Some (sourceRecord ''a.js'' ''X'')"
    and "Map_get (downloadedFiles (snd (extractSourceFilesFromMap p st mapContent js))) ''src/b.js''
           = Some (sourceRecord ''b.js'' ''Y'')"
    and "fst ` set (downloadedFiles (snd (extractSourceFilesFromMap p st mapContent js)))
           = fst ` set (downloadedFiles st) \<union> {''src/a.js'', ''src/b.js''}"
proof -
  have sa: "shouldExtractSource (Some ''a.js'') (Some ''X'')"
    and sb: "shouldExtractSource (Some ''b.js'') (Some ''Y'')"
    by (simp_all add: skipPatterns_def js_includes_def sublist_Cons_right)
  have upt2: "[0..<length [Some ''a.js'', Some ''b.js'']] = [0, 1]"
    by (simp add: upt_conv_Cons)
  have r: "extractSourceFilesFromMap p st mapContent js =
      (2, saveFile (saveFile st ''src/a.js'' (sourceRecord ''a.js'' ''X''))
            ''src/b.js'' (sourceRecord ''b.js'' ''Y''))"
    using assms sa sb unfolding extractSourceFilesFromMap_def extractLoop_fold
    by (simp add: upt2 js_nth_def extractEntry_def clean_a clean_b del: shouldExtractSource.simps)
  show "fst (extractSourceFilesFromMap p st mapContent js) = 2" by (simp add: r)
  show "Map_get (downloadedFiles (snd (extractSourceFilesFromMap p st mapContent js))) ''src/a.js''
           = Some (sourceRecord ''a.js'' ''X'')"
    by (simp add: r Map_get_saveFile_iff)
  show "Map_get (downloadedFiles (snd (extractSourceFilesFromMap p st mapContent js))) ''src/b.js''
           = Some (sourceRecord ''b.js'' ''Y'')"
    by (simp add: r Map_get_saveFile_iff)
  show "fst ` set (downloadedFiles (snd (extractSourceFilesFromMap p st mapContent js)))
           = fst ` set (downloadedFiles st) \<union> {''src/a.js'', ''src/b.js''}"
    by (auto simp: r keys_saveFile)
qed

subsection \<open>Claim C4\<close>

lemma extractEntry_pairAt:
  "extractEntry (js_nth srcs i) (js_nth cnts i) (c, st) =
     (case pairAt srcs cnts i of
        None \<Rightarrow> (c, st)
      | Some (sp, sc) \<Rightarrow>
          (Suc c, saveFile st (''src/'' @ cleanSourcePath sp)
                    \<lparr>content = Text sc, fsize = length sc, ftype = TypeName ''source'',
                     url = None, contentType = None, originalPath = Some sp\<rparr>))"
  by (simp add: extractEntry_def pairAt_def sourceRecord_def
      split: option.splits del: shouldExtractSource.simps)

lemma extract_fold_pairs:
  "foldl (\<lambda>a j. extractEntry (js_nth srcs j) (js_nth cnts j) a) (c, st) idxs =
     (c + length (List.map_filter (pairAt srcs cnts) idxs),
      foldl (\<lambda>s (sp, sc). saveFile s (''src/'' @ cleanSourcePath sp)
                \<lparr>content = Text sc, fsize = length sc, ftype = TypeName ''source'',
                 url = None, contentType = None, originalPath = Some sp\<rparr>)
        st (List.map_filter (pairAt srcs cnts) idxs))"
proof (induction idxs arbitrary: c st)
  case Nil
  then show ?case by simp
next
  case (Cons i idxs)
  show ?case
  proof (cases "pairAt srcs cnts i")
    case None
    then show ?thesis by (simp add: extractEntry_pairAt Cons.IH)
  next
    case (Some pr)
    then show ?thesis
      by (cases pr) (simp add: extractEntry_pairAt Cons.IH)
  qed
qed

lemma set_map_filter_iff:
  "y \<in> set (List.map_filter f xs) \<longleftrightarrow> (\<exists>x\<in>set xs. f x = Some y)"
  by (induction xs) (auto split: option.splits)

lemma pairAt_Some:
  "pairAt srcs cnts i = Some (sp, sc) \<longleftrightarrow>
     js_nth srcs i = Some sp \<and> js_nth cnts i = Some sc \<and>
     shouldExtractSource (Some sp) (Some sc)"
proof (cases "js_nth srcs i")
  case None
  then show ?thesis by (simp add: pairAt_def)
next
  case a: (Some x)
  show ?thesis
  proof (cases "js_nth cnts i")
    case None
    with a show ?thesis by (simp add: pairAt_def)
  next
    case (Some y)
    with a show ?thesis
      by (auto simp: pairAt_def simp del: shouldExtractSource.simps)
  qed
qed

lemma pairedEntries_iff:
  "(sp, sc) \<in> set (pairedEntries srcs cnts) \<longleftrightarrow>
     (\<exists>i<length srcs. js_nth srcs i = Some sp \<and> js_nth cnts i = Some sc \<and>
        shouldExtractSource (Some sp) (Some sc))"
  unfolding pairedEntries_def set_map_filter_iff pairAt_Some by auto

text \<open>
  C4: \<open>extractSourceFilesFromMap\<close> reads \<open>sources\<close> and \<open>sourcesContent\<close> at the same
  index. What it does is: for every index whose entry passes \<open>shouldExtractSource\<close>, in
  the order of the indices, save under \<open>src/\<close> followed by the cleaned \<open>sources[i]\<close> the
  record whose content is the text \<open>sourcesContent[i]\<close> and whose original path is
  \<open>sources[i]\<close>; the count returned is the number of these entries. For the sources
  \<open>a.js\<close>, \<open>b.js\<close> with contents \<open>X\<close>, \<open>Y\<close> exactly two files are extracted: \<open>src/a.js\<close>
  with content \<open>X\<close> and \<open>src/b.js\<close> with content \<open>Y\<close>, and no other key is added.
\<close>

theorem extraction_pairs_by_index:
  assumes "JSON_parse p mapContent = Some sm"
    and "sources sm = Some srcs" and "sourcesContent sm = Some cnts"
  shows "extractSourceFilesFromMap p st mapContent js =
           (length (pairedEntries srcs cnts),
            foldl (\<lambda>s (sp, sc). saveFile s (''src/'' @ cleanSourcePath sp)
                      \<lparr>content = Text sc, fsize = length sc, ftype = TypeName ''source'',
                       url = None, contentType = None, originalPath = Some sp\<rparr>)
              st (pairedEntries srcs cnts))
         \<and> (\<forall>sp sc. (sp, sc) \<in> set (pairedEntries srcs cnts) \<longleftrightarrow>
               (\<exists>i<length srcs. js_nth srcs i = Some sp \<and> js_nth cnts i = Some sc \<and>
                  shouldExtractSource (Some sp) (Some sc)))
         \<and> (srcs = [Some ''a.js'', Some ''b.js''] \<and> cnts = [Some ''X'', Some ''Y''] \<longrightarrow>
              fst (extractSourceFilesFromMap p st mapContent js) = 2
              \<and> Map_get (downloadedFiles (snd (extractSourceFilesFromMap p st mapContent js)))
                   ''src/a.js''
                 = Some \<lparr>content = Text ''X'', fsize = 1, ftype = TypeName ''source'',
                         url = None, contentType = None, originalPath = Some ''a.js''\<rparr>
              \<and> Map_get (downloadedFiles (snd (extractSourceFilesFromMap p st mapContent js)))
                   ''src/b.js''
                 = Some \<lparr>content = Text ''Y'', fsize = 1, ftype = TypeName ''source'',
                         url = None, contentType = None, originalPath = Some ''b.js''\<rparr>
              \<and> fst ` set (downloadedFiles (snd (extractSourceFilesFromMap p st mapContent js)))
                   = fst ` set (downloadedFiles st) \<union> {''src/a.js'', ''src/b.js''})"
proof (intro conjI allI impI)
  show "extractSourceFilesFromMap p st mapContent js =
           (length (pairedEntries srcs cnts),
            foldl (\<lambda>s (sp, sc). saveFile s (''src/'' @ cleanSourcePath sp)
                      \<lparr>content = Text sc, fsize = length sc, ftype = TypeName ''source'',
                       url = None, contentType = None, originalPath = Some sp\<rparr>)
              st (pairedEntries srcs cnts))"
    using assms
    by (simp add: extractSourceFilesFromMap_def extractLoop_fold extract_fold_pairs
        pairedEntries_def)
next
  fix sp sc
  show "(sp, sc) \<in> set (pairedEntries srcs cnts) \<longleftrightarrow>
          (\<exists>i<length srcs. js_nth srcs i = Some sp \<and> js_nth cnts i = Some sc \<and>
             shouldExtractSource (Some sp) (Some sc))"
    by (rule pairedEntries_iff)
next
  assume ab: "srcs = [Some ''a.js'', Some ''b.js''] \<and> cnts = [Some ''X'', Some ''Y'']"
  with assms have s: "sources sm = Some [Some ''a.js'', Some ''b.js'']"
    and c: "sourcesContent sm = Some [Some ''X'', Some ''Y'']" by simp_all
  note r = extract_ab [OF assms(1) s c, of st js]
  show "fst (extractSourceFilesFromMap p st mapContent js) = 2" by (rule r(1))
  show "Map_get (downloadedFiles (snd (extractSourceFilesFromMap p st mapContent js)))
          ''src/a.js''
        = Some \<lparr>content = Text ''X'', fsize = 1, ftype = TypeName ''source'',
                url = None, contentType = None, originalPath = Some ''a.js''\<rparr>"
    using r(2) by (simp add: sourceRecord_def)
  show "Map_get (downloadedFiles (snd (extractSourceFilesFromMap p st mapContent js)))
          ''src/b.js''
        = Some \<lparr>content = Text ''Y'', fsize = 1, ftype = TypeName ''source'',
                url = None, contentType = None, originalPath = Some ''b.js''\<rparr>"
    using r(3) by (simp add: sourceRecord_def)
  show "fst ` set (downloadedFiles (snd (extractSourceFilesFromMap p st mapContent js)))
          = fst ` set (downloadedFiles st) \<union> {''src/a.js'', ''src/b.js''}" by (rule r(4))
qed

theorem extraction_pairs_by_index_witness:
  "JSON_parse bundleMap ''{ab}''
     = Some \<lparr>sources = Some [Some ''a.js'', Some ''b.js''],
             sourcesContent = Some [Some ''X'', Some ''Y''], sourceRoot = None\<rparr>
   \<and> fst (extractSourceFilesFromMap bundleMap idle ''{ab}'' ''bundle.js'') = 2
   \<and> Map_get (downloadedFiles (snd (extractSourceFilesFromMap bundleMap idle ''{ab}'' ''bundle.js'')))
        ''src/a.js''
      = Some \<lparr>content = Text ''X'', fsize = 1, ftype = TypeName ''source'',
              url = None, contentType = None, originalPath = Some ''a.js''\<rparr>
   \<and> Map_get (downloadedFiles (snd (extractSourceFilesFromMap bundleMap idle ''{ab}'' ''bundle.js'')))
        ''src/b.js''
      = Some \<lparr>content = Text ''Y'', fsize = 1, ftype = TypeName ''source'',
              url = None, contentType = None, originalPath = Some ''b.js''\<rparr>
   \<and> (''b.js'', ''Y'') \<in> set (pairedEntries [Some ''a.js'', Some ''b.js''] [Some ''X'', Some ''Y''])
   \<and> pairedEntries [Some ''a.js'', Some ''b.js''] [Some ''X'', Some ''Y'']
        = [(''a.js'', ''X''), (''b.js'', ''Y'')]"
proof -
  let ?sm = "\<lparr>sources = Some [Some ''a.js'', Some ''b.js''],
              sourcesContent = Some [Some ''X'', Some ''Y''], sourceRoot = None\<rparr>"
  have 1: "JSON_parse bundleMap ''{ab}'' = Some ?sm" by (simp add: bundleMap_def offline_def)
  have 2: "sources ?sm = Some [Some ''a.js'', Some ''b.js'']" by simp
  have 3: "sourcesContent ?sm = Some [Some ''X'', Some ''Y'']" by simp
  note t = extraction_pairs_by_index [OF 1 2 3, of idle "''bundle.js''"]
  have sb: "shouldExtractSource (Some ''b.js'') (Some ''Y'')"
    by (simp add: skipPatterns_def js_includes_def sublist_Cons_right)
  have at1: "\<exists>i<length [Some ''a.js'', Some ''b.js''].
      js_nth [Some ''a.js'', Some ''b.js''] i = Some ''b.js'' \<and>
      js_nth [Some ''X'', Some ''Y''] i = Some ''Y'' \<and>
      shouldExtractSource (Some ''b.js'') (Some ''Y'')"
  proof (intro exI [of _ 1] conjI)
    show "1 < length [Some ''a.js'', Some ''b.js'']" by simp
    show "js_nth [Some ''a.js'', Some ''b.js''] 1 = Some ''b.js''" by (simp add: js_nth_def)
    show "js_nth [Some ''X'', Some ''Y''] 1 = Some ''Y''" by (simp add: js_nth_def)
    show "shouldExtractSource (Some ''b.js'') (Some ''Y'')" by (rule sb)
  qed
  note member = t [THEN conjunct2, THEN conjunct1, rule_format, THEN iffD2, OF at1]
  note example = t [THEN conjunct2, THEN conjunct2, rule_format, OF conjI [OF refl refl]]
  have entries: "pairedEntries [Some ''a.js'', Some ''b.js''] [Some ''X'', Some ''Y'']
        = [(''a.js'', ''X''), (''b.js'', ''Y'')]"
    by code_simp
  from member example entries 1 show ?thesis by simp
qed

subsection \<open>Claim C6\<close>

text \<open>The filter of \<open>extractSourceFilesAdvanced\<close> discards what it finds on the cleaned path.\<close>

lemma embeddedEntry_discards:
  "isInternalPath (cleanSourcePath sp) \<or> isInvalidPath (cleanSourcePath sp) \<Longrightarrow>
   embeddedEntry (Some sp) (Some sc) acc = acc"
  by (cases acc) (auto simp: embeddedEntry_def Let_def)

text \<open>
  C6 holds of \<open>extractSourceFilesAdvanced\<close> and fails in \<open>extractSourceFilesFromMap\<close>,
  which hands the path as it stands in the map, not the cleaned one, to
  \<open>shouldExtractSource\<close>: the entry \<open>webpack:///./src/app.js\<close> cleans to \<open>src/app.js\<close>,
  which carries no marker, and is discarded because the uncleaned path contains
  \<open>webpack:///\<close>. The other variant extracts it.
\<close>

theorem raw_path_filtered:
  "cleanSourcePath ''webpack:///./src/app.js'' = ''src/app.js''
   \<and> list_ex (js_includes ''src/app.js'') skipPatterns = False
   \<and> isInternalPath ''src/app.js'' = False
   \<and> isInvalidPath ''src/app.js'' = False
   \<and> extractSourceFilesFromMap bundleMap idle ''{webpack}'' ''bundle.js'' = (0, idle)
   \<and> fst (extractSourceFilesAdvanced bundleMap idle ''{webpack}'' ''bundle.js'') = 1
   \<and> map fst (downloadedFiles (snd (extractSourceFilesAdvanced bundleMap idle ''{webpack}''
        ''bundle.js''))) = [''sources/src/app.js'']"
  by code_simp

subsection \<open>Claim C3\<close>

lemma await_fetch_cases:
  "await_fetch p st rq = (res, st') \<Longrightarrow>
     res = fetch p (length (requests st)) rq \<and> requests st' = requests st @ [rq] \<and>
     downloadedFiles st' = downloadedFiles st"
  by (auto simp: await_fetch_def Let_def stopDownload_def)

lemma fetchViaProxy_adv_effect:
  "fetchViaProxy_adv p st u = (res, st') \<Longrightarrow>
     requests st' = requests st @ [ViaProxy u] \<and> downloadedFiles st' = downloadedFiles st"
  by (auto simp: fetchViaProxy_adv_def split: prod.splits fetched.splits option.splits
      dest!: await_fetch_cases)

lemma fetchWithCORS_adv_effect:
  "fetchWithCORS_adv p st u = (res, st') \<Longrightarrow>
     requests st' = requests st @ (if direct_ok p st u then [Direct u] else [Direct u, ViaProxy u])
     \<and> downloadedFiles st' = downloadedFiles st"
  by (auto simp: fetchWithCORS_adv_def direct_ok_def
      split: prod.splits fetched.splits if_splits
      dest!: await_fetch_cases fetchViaProxy_adv_effect)

lemma directRequests_append:
  "requests st' = requests st @ rs \<Longrightarrow>
   directRequests st' = directRequests st @
     List.map_filter (\<lambda>rq. case rq of Direct u \<Rightarrow> Some u | ViaProxy u \<Rightarrow> None) rs"
  by (simp add: directRequests_def map_filter_def)

lemma directRequests_adv:
  "fetchWithCORS_adv p st u = (res, st') \<Longrightarrow> directRequests st' = directRequests st @ [u]"
  by (drule fetchWithCORS_adv_effect) (auto simp: map_filter_def dest!: directRequests_append split: if_splits)

lemma fetchedEntry_effect:
  assumes "fetchedEntry p sm js path (n, st) = (n', st')" "stableBase sm js"
  shows "directRequests st' = directRequests st @ (case entryUrl p sm st js path of None \<Rightarrow> [] | Some u \<Rightarrow> [u])"
    and "baseUrlFor sm st' js = baseUrlFor sm st js"
proof -
  show "directRequests st' = directRequests st @ (case entryUrl p sm st js path of None \<Rightarrow> [] | Some u \<Rightarrow> [u])"
    using assms(1)
    by (auto simp: fetchedEntry_def entryUrl_def directRequests_def Let_def
        split: option.splits if_splits prod.splits sum.splits
        dest!: directRequests_adv [unfolded directRequests_def])
  have files: "truthy (sourceRoot sm) \<or> Map_get (downloadedFiles st') js = Map_get (downloadedFiles st) js"
    using assms
    by (auto simp: fetchedEntry_def stableBase_def Let_def Map_get_set_other sources_name_ne
        simp del: append_Cons
        split: option.splits if_splits prod.splits sum.splits
        dest!: fetchWithCORS_adv_effect)
  then show "baseUrlFor sm st' js = baseUrlFor sm st js"
    by (auto simp: baseUrlFor_def)
qed

lemma entryUrl_base:
  "baseUrlFor sm st' js = baseUrlFor sm st js \<Longrightarrow> entryUrl p sm st' js = entryUrl p sm st js"
  by (rule ext) (simp add: entryUrl_def sourceUrlFor_def split: option.splits)

lemma fetchedLoop_requests:
  assumes "stableBase sm js"
  shows "directRequests (snd (fetchedLoop p sm js paths (n, st)))
           = directRequests st @ List.map_filter (entryUrl p sm st js) paths"
proof (induction paths arbitrary: n st)
  case Nil
  then show ?case by (simp add: map_filter_def)
next
  case (Cons path rest)
  obtain n' st' where e: "fetchedEntry p sm js path (n, st) = (n', st')"
    by (cases "fetchedEntry p sm js path (n, st)")
  note eff = fetchedEntry_effect [OF e assms]
  have "directRequests (snd (fetchedLoop p sm js (path # rest) (n, st)))
          = directRequests st' @ List.map_filter (entryUrl p sm st' js) rest"
    using Cons.IH [of n' st'] e by simp
  also have "\<dots> = directRequests st @ List.map_filter (entryUrl p sm st js) (path # rest)"
    by (simp add: eff entryUrl_base [OF eff(2)] split: option.splits)
  finally show ?case .
qed

lemma fetchedLoop_snoc:
  "fetchedLoop p sm js (ps @ [sp]) acc = fetchedEntry p sm js sp (fetchedLoop p sm js ps acc)"
  by (induction ps arbitrary: acc) simp_all

lemma fetchedEntry_success:
  assumes "sp \<noteq> []" "sourceUrlFor p sm st js sp = Some u"
    and "fetchWithCORS_adv p st u = (Inr response, st1)" "resp_text response = Some body"
    and "\<not> js_includes (cleanSourcePath sp) ''webpack/''"
    and "\<not> js_includes (cleanSourcePath sp) ''node_modules/''"
    and "\<not> startsWith (cleanSourcePath sp) ''(webpack)''"
  shows "fetchedEntry p sm js (Some sp) (n, st) =
           (Suc n, st1\<lparr>downloadedFiles :=
                        Map_set (downloadedFiles st1) (''sources/'' @ cleanSourcePath sp)
                          (fetchedRecord sp u body)\<rparr>)"
  using assms by (simp add: fetchedEntry_def fetchedRecord_def Let_def)

text \<open>
  In \<open>extractSourceFilesAdvanced\<close>, for a map with \<open>sources\<close> and without
  \<open>sourcesContent\<close>, every non-empty source path for which there is a URL is requested
  once, in order. The equation holds where the base of the resolution stays put: the map
  names a source root, or the script is not itself stored under \<open>sources/\<close>.
\<close>

lemma advanced_requests_per_path:
  assumes "JSON_parse p mapContent = Some sm"
    and "sources sm = Some paths" and "sourcesContent sm = None"
    and "stableBase sm js"
  shows "directRequests (snd (extractSourceFilesAdvanced p st mapContent js))
           = directRequests st @ List.map_filter (entryUrl p sm st js) paths"
  using assms fetchedLoop_requests [OF assms(4), of p paths 0 st]
  by (simp add: extractSourceFilesAdvanced_def)

text \<open>
  C3: the per-path fallback of the claim is what \<open>extractSourceFilesAdvanced\<close> does, and
  \<open>extractSourceFilesFromMap\<close> misses it: it returns at its first test when
  \<open>sourcesContent\<close> is absent. For a map with the source paths \<open>a.js\<close> and \<open>b.js\<close>, a
  source root and no embedded contents, \<open>extractSourceFilesFromMap\<close> extracts nothing and
  issues no request. On the same map \<open>extractSourceFilesAdvanced\<close> requests both paths,
  resolved against the source root, and extracts \<open>b.js\<close> with the text it fetched
  although the request for \<open>a.js\<close> failed.
\<close>

theorem no_fallback_in_extractSourceFilesFromMap:
  "JSON_parse bareMap ''{bare}'' = Some bareSourceMap
   \<and> sources bareSourceMap = Some [Some ''a.js'', Some ''b.js'']
   \<and> sourcesContent bareSourceMap = None
   \<and> sourceRoot bareSourceMap = Some ''https://x.test/src/''
   \<and> extractSourceFilesFromMap bareMap idle ''{bare}'' ''bundle.js'' = (0, idle)
   \<and> requests (snd (extractSourceFilesFromMap bareMap idle ''{bare}'' ''bundle.js'')) = []
   \<and> requests (snd (extractSourceFilesAdvanced bareMap idle ''{bare}'' ''bundle.js''))
        = [Direct ''https://x.test/src/a.js'', ViaProxy ''https://x.test/src/a.js'',
           Direct ''https://x.test/src/b.js'']
   \<and> fst (extractSourceFilesAdvanced bareMap idle ''{bare}'' ''bundle.js'') = 1
   \<and> downloadedFiles (snd (extractSourceFilesAdvanced bareMap idle ''{bare}'' ''bundle.js''))
        = [(''sources/b.js'',
            \<lparr>content = Text ''B'', fsize = 1, ftype = TypeName ''source'',
             url = Some ''https://x.test/src/b.js'', contentType = None,
             originalPath = Some ''b.js''\<rparr>)]"
  by code_simp

section \<open>Properties of static resource extraction\<close>

lemma addResourceUrl_added:
  assumes "addResourceUrl p (Some r) base [] = [u]"
  shows "startsWith u ''http'' \<and> (\<forall>S. addResourceUrl p (Some r) base S = Set_add S u)"
  using assms
  by (auto simp: addResourceUrl_def Set_add_def split: if_splits option.splits)

lemma http_passes_guard:
  assumes "startsWith u ''http''"
  shows "\<not> (u = [] \<or> startsWith u ''data:'' \<or> startsWith u ''#'' \<or>
            startsWith u ''mailto:'' \<or> startsWith u ''tel:'')"
  using assms by (cases u) (auto simp: startsWith_def)

lemma Set_add_idem: "Set_add (Set_add S u) u = Set_add S u"
  by (simp add: Set_add_def)

lemma Set_add_distinct: "distinct S \<Longrightarrow> distinct (Set_add S u)"
  by (simp add: Set_add_def)

lemma addResourceUrl_distinct: "distinct S \<Longrightarrow> distinct (addResourceUrl p a base S)"
  by (auto simp: addResourceUrl_def Set_add_distinct split: option.splits)

lemma foldl_addResourceUrl_distinct:
  "distinct S \<Longrightarrow> distinct (foldl (\<lambda>s el. addResourceUrl p (f el) base s) S els)"
  by (induction els arbitrary: S) (simp_all add: addResourceUrl_distinct)

lemma extractStaticResources_distinct:
  "extractStaticResources p html baseUrl = Inr us \<Longrightarrow> distinct us"
  by (auto simp: extractStaticResources_def extractScripts_def extractStylesheets_def
      extractImages_def extractOtherResources_def Let_def foldl_addResourceUrl_distinct
      split: option.splits)

subsection \<open>Resolving a result again\<close>

text \<open>
  A URL that \<open>addResourceUrl\<close> has added starts with \<open>http\<close>, so none of the tests
  in front of the URL constructor turns it away: resolving it again is \<open>new URL\<close> again,
  followed by the same test on the result. Whether \<open>new URL\<close> gives an absolute URL back
  unchanged is a property of the platform, which the model leaves open.
\<close>

lemma addResourceUrl_again:
  assumes "addResourceUrl p (Some r) base [] = [u]"
  shows "addResourceUrl p (Some u) base S =
           (case new_URL p u (Some (href base)) of
              None \<Rightarrow> S
            | Some x \<Rightarrow> if startsWith (href x) ''http'' then Set_add S (href x) else S)"
proof -
  from addResourceUrl_added [OF assms] have "startsWith u ''http''" by simp
  from http_passes_guard [OF this] show ?thesis
    by (simp add: addResourceUrl_def)
qed

subsection \<open>Claim C8\<close>

text \<open>
  C8: parsing and URL resolution belong to the platform. Given that the parser builds,
  for the document of the claim, a head that holds the script and the link, and that
  \<open>/a.js\<close> and \<open>/b.css\<close> resolve against the base as the claim says,
  \<open>extractStaticResources\<close> returns these two URLs and nothing else; and its result never
  holds an entry twice.
\<close>

theorem extract_page_resources:
  assumes "parseFromString p page = page_doc"
    and "new_URL p ''https://x.test/'' None = Some base" and "href base = ''https://x.test/''"
    and "new_URL p ''/a.js'' (Some ''https://x.test/'') = Some a"
    and "href a = ''https://x.test/a.js''"
    and "new_URL p ''/b.css'' (Some ''https://x.test/'') = Some b"
    and "href b = ''https://x.test/b.css''"
  shows "extractStaticResources p page ''https://x.test/''
           = Inr [''https://x.test/a.js'', ''https://x.test/b.css'']
         \<and> (\<forall>html baseUrl us. extractStaticResources p html baseUrl = Inr us \<longrightarrow> distinct us)"
proof -
  have s1: "querySelectorAll page_doc sel_script_src
              = [\<lparr>tagName = ''script'', attributes = [(''src'', ''/a.js'')]\<rparr>]"
    by (simp add: querySelectorAll_def page_doc_def sel_script_src_def getAttribute_def)
  have s2: "querySelectorAll page_doc sel_link_stylesheet
              = [\<lparr>tagName = ''link'',
                  attributes = [(''rel'', ''stylesheet''), (''href'', ''/b.css'')]\<rparr>]"
    by code_simp
  have s3: "querySelectorAll page_doc sel_img_src = []"
    by (simp add: querySelectorAll_def page_doc_def sel_img_src_def getAttribute_def)
  have s4: "querySelectorAll page_doc sel_link_other = []"
    by code_simp
  have a1: "addResourceUrl p (Some ''/a.js'') base [] = [''https://x.test/a.js'']"
    using assms(3-5) by (simp add: addResourceUrl_def startsWith_def Set_add_def)
  have a2: "addResourceUrl p (Some ''/b.css'') base [''https://x.test/a.js'']
              = [''https://x.test/a.js'', ''https://x.test/b.css'']"
    using assms(3,6,7) by (simp add: addResourceUrl_def startsWith_def Set_add_def)
  have "extractStaticResources p page ''https://x.test/''
           = Inr [''https://x.test/a.js'', ''https://x.test/b.css'']"
    using assms(1,2)
    by (simp add: extractStaticResources_def extractScripts_def extractStylesheets_def
        extractImages_def extractOtherResources_def s1 s2 s3 s4 getAttribute_def a1 a2)
  then show ?thesis using extractStaticResources_distinct by blast
qed

theorem extract_page_resources_witness:
  "parseFromString browser page = page_doc
   \<and> new_URL browser ''/a.js'' (Some ''https://x.test/'') = Some (absolute ''https://x.test'' ''/a.js'')
   \<and> extractStaticResources browser page ''https://x.test/''
        = Inr [''https://x.test/a.js'', ''https://x.test/b.css'']
   \<and> distinct [''https://x.test/a.js'', ''https://x.test/b.css'']"
proof -
  have 1: "parseFromString browser page = page_doc" by (simp add: browser_def offline_def)
  have 2: "new_URL browser ''https://x.test/'' None = Some (absolute ''https://x.test'' ''/'')"
    by (simp add: browser_def offline_def)
  have 3: "href (absolute ''https://x.test'' ''/'') = ''https://x.test/''"
    by (simp add: absolute_def)
  have 4: "new_URL browser ''/a.js'' (Some ''https://x.test/'')
             = Some (absolute ''https://x.test'' ''/a.js'')"
    by (simp add: browser_def offline_def)
  have 5: "href (absolute ''https://x.test'' ''/a.js'') = ''https://x.test/a.js''"
    by (simp add: absolute_def)
  have 6: "new_URL browser ''/b.css'' (Some ''https://x.test/'')
             = Some (absolute ''https://x.test'' ''/b.css'')"
    by (simp add: browser_def offline_def)
  have 7: "href (absolute ''https://x.test'' ''/b.css'') = ''https://x.test/b.css''"
    by (simp add: absolute_def)
  note t = extract_page_resources [OF 1 2 3 4 5 6 7]
  from t [THEN conjunct1] t [THEN conjunct2, rule_format, OF t [THEN conjunct1]] 1 4
  show ?thesis by simp
qed

section \<open>Properties of cancellation\<close>

text \<open>Once the flag is down at the head of the loop, nothing more is requested or stored.\<close>

lemma downloadStaticResources_stopped:
  "\<not> isDownloading st \<Longrightarrow> downloadStaticResources p st resourceUrls = st"
  by (cases resourceUrls) simp_all

subsection \<open>Claim C9\<close>

text \<open>
  C9: the loop of \<open>downloadStaticResources\<close> reads the flag before each resource and
  requests nothing once it finds it down; the third script is never requested. But the
  request that is in flight when the user clicks is completed and its result stored
  through \<open>saveFile\<close>: the record \<open>app.js\<close> of the first script, in the catalog at the
  moment of the click, is replaced by the second script, which has the same file name.
\<close>

theorem stop_then_overwrite:
  "isDownloading afterFirst
   \<and> requests afterFirst = [Direct ''https://x.test/a/app.js'']
   \<and> map_option url (Map_get (downloadedFiles afterFirst) ''app.js'')
        = Some (Some ''https://x.test/a/app.js'')
   \<and> map_option content (Map_get (downloadedFiles afterFirst) ''app.js'') = Some (Text ''A'')
   \<and> stopClicked stopDuringSecond 1
   \<and> isDownloading afterStop = False
   \<and> requests afterStop = [Direct ''https://x.test/a/app.js'', Direct ''https://x.test/b/app.js'']
   \<and> map fst (downloadedFiles afterStop) = [''app.js'']
   \<and> map_option url (Map_get (downloadedFiles afterStop) ''app.js'')
        = Some (Some ''https://x.test/b/app.js'')
   \<and> map_option content (Map_get (downloadedFiles afterStop) ''app.js'') = Some (Text ''B'')"
  by code_simp


end
